theory Spec2Isabelle
  imports Main "HOL-Library.Multiset" "HOL-Library.AList" "HOL-Library.Word"
begin

unbundle bit_operations_syntax

section \<open>Text helpers of the Go standard library\<close>

text \<open>
  Go strings are byte strings; \<open>string\<close> (a list of \<open>char\<close>) models them byte for
  byte. The functions below model the standard-library calls the repository makes on
  lines and fields.
\<close>

definition newline :: char where
  "newline = CHR 0x0A"

text \<open>\<open>fmt.Sprint\<close> of an unsigned number: base 10, no leading zeros.\<close>

definition digit_char :: "nat \<Rightarrow> char" where
  "digit_char d = ''0123456789'' ! d"

function nat_dec :: "nat \<Rightarrow> string" where
  "nat_dec n = (if n < 10 then [digit_char n] else nat_dec (n div 10) @ [digit_char (n mod 10)])"
  by pat_completeness auto
termination
  by (relation "measure id") auto

declare nat_dec.simps [simp del]

text \<open>\<open>fmt.Sprint\<close> of an \<open>int64\<close> and \<open>big.Int.String\<close>: a minus sign, then the magnitude.\<close>

definition int_dec :: "int \<Rightarrow> string" where
  "int_dec i = (if i < 0 then CHR ''-'' # nat_dec (nat (- i)) else nat_dec (nat i))"

text \<open>\<open>strings.Join(elems, sep)\<close>.\<close>

fun Join :: "string list \<Rightarrow> string \<Rightarrow> string" where
  "Join [] sep = []"
| "Join [x] sep = x"
| "Join (x # y # ys) sep = x @ sep @ Join (y # ys) sep"

section \<open>The summary entry (common/types.go)\<close>

text \<open>
  \<open>TxSummaryEntry\<close> as \<open>common/types.go\<close> declares it: thirteen fields, the
  timestamp and the data size are \<open>int64\<close>, everything else is text.
\<close>

record TxSummaryEntry =
  Timestamp :: int
  Hash :: string
  ChainID :: string
  From :: string
  To :: string
  Value :: string
  Nonce :: string
  Gas :: string
  GasPrice :: string
  GasTipCap :: string
  GasFeeCap :: string
  DataSize :: int
  Data4Bytes :: string

record TxEnvelope =
  Rlp :: string
  Summary :: TxSummaryEntry

text \<open>
  \<open>cmd/merge/transactions.go\<close> and the analyzer are written against the entry with
  its enrichment fields (\<open>tx.Sources\<close>, \<open>tx.IncludedAtBlockHeight\<close>,
  \<open>tx.IncludedBlockTimestamp\<close>, \<open>tx.InclusionDelayMs\<close>, \<open>tx.RawTxHex()\<close>): the
  record is extended by exactly the fields those two files read.
\<close>

record MergedEntry = TxSummaryEntry +
  Sources :: "string list"
  IncludedAtBlockHeight :: int
  IncludedBlockTimestamp :: int
  InclusionDelayMs :: int
  RawTx :: string

definition ToCSVRow :: "'a TxSummaryEntry_scheme \<Rightarrow> string list" where
  "ToCSVRow t =
     [int_dec (Timestamp t), Hash t, ChainID t, From t, To t, Value t, Nonce t, Gas t,
      GasPrice t, GasTipCap t, GasFeeCap t, int_dec (DataSize t), Data4Bytes t]"

definition TxSummaryEntryCSVHeader :: "string list" where
  "TxSummaryEntryCSVHeader =
     [''timestamp_ms'', ''hash'', ''chain_id'', ''from'', ''to'', ''value'', ''nonce'', ''gas'',
      ''gas_price'', ''gas_tip_cap'', ''gas_fee_cap'', ''data_size'', ''data_4bytes'']"

section \<open>Decoding one transaction (common/types.go, parseTx)\<close>

text \<open>
  \<open>hex.Encode\<close>, \<open>hexutil.Encode\<close> and \<open>common.Hash.Hex\<close>: two lower-case hexadecimal
  digits per byte, the latter two behind \<open>0x\<close>.
\<close>

type_synonym byte = "8 word"

definition hex_digit :: "nat \<Rightarrow> char" where
  "hex_digit d = ''0123456789abcdef'' ! d"

definition hex_encode :: "byte list \<Rightarrow> string" where
  "hex_encode bs = concat (map (\<lambda>b. [hex_digit (unat b div 16), hex_digit (unat b mod 16)]) bs)"

definition hexutil_Encode :: "byte list \<Rightarrow> string" where
  "hexutil_Encode bs = ''0x'' @ hex_encode bs"

definition Hash_Hex :: "byte list \<Rightarrow> string" where
  "Hash_Hex h = hexutil_Encode h"

text \<open>
  \<open>common.Address.Hex\<close> of go-ethereum: the lower-case digits, of which a letter is
  turned to upper case where the matching nibble of the Keccak-256 hash of the digits
  exceeds 7 (EIP-55). The hash function is a parameter; a digit \<open>0\<close>..\<open>9\<close> is never
  changed.
  \<^verbatim>\<open>
  for i := 2; i < len(buf); i++ {
      hashByte := hash[(i-2)/2]
      if i%2 == 0 { hashByte = hashByte >> 4 } else { hashByte &= 0xf }
      if buf[i] > '9' && hashByte > 7 { buf[i] -= 32 }
  }
  \<close>
\<close>

definition hash_nibble :: "byte list \<Rightarrow> nat \<Rightarrow> nat" where
  "hash_nibble hash i =
     (let hashByte = (if i div 2 < length hash then unat (hash ! (i div 2)) else 0)
      in if even i then hashByte div 16 else hashByte mod 16)"

definition checksum_char :: "byte list \<Rightarrow> nat \<Rightarrow> char \<Rightarrow> char" where
  "checksum_char hash i c =
     (if (of_char c :: nat) > of_char CHR ''9'' \<and> hash_nibble hash i > 7
      then char_of ((of_char c :: nat) - 32) else c)"

definition Address_Hex :: "(byte list \<Rightarrow> byte list) \<Rightarrow> byte list \<Rightarrow> string" where
  "Address_Hex keccak256 a =
     (let buf = hex_encode a; hash = keccak256 (map of_char buf)
      in ''0x'' @ map (\<lambda>(i, c). checksum_char hash i c) (zip [0..<length buf] buf))"

text \<open>
  A decoded go-ethereum transaction, by what its accessors return: \<open>Hash()\<close>,
  \<open>ChainId()\<close>, \<open>To()\<close> (nil for a contract creation), \<open>Value()\<close>, \<open>Nonce()\<close>, \<open>Gas()\<close>,
  \<open>GasPrice()\<close>, \<open>GasTipCap()\<close>, \<open>GasFeeCap()\<close> and \<open>Data()\<close>. The \<open>*big.Int\<close> values
  are \<open>int\<close>, the \<open>uint64\<close> values are 64-bit words.
\<close>

record Transaction =
  tx_Hash :: "byte list"
  tx_ChainId :: int
  tx_To :: "byte list option"
  tx_Value :: int
  tx_Nonce :: "64 word"
  tx_Gas :: "64 word"
  tx_GasPrice :: int
  tx_GasTipCap :: int
  tx_GasFeeCap :: int
  tx_Data :: "byte list"

datatype error = Err string

text \<open>
  What \<open>parseTx\<close> and the loaders call outside the files under src/:
  \<^item> \<open>RLPStringToTx\<close> (package common): the decoder of the raw transaction;
  \<^item> \<open>types.Sender\<close> with the latest signer of the transaction's chain id: Go returns
    the pair of an address and an error; the error is \<open>None\<close> on success;
  \<^item> the Keccak-256 hash behind \<open>Address.Hex\<close>;
  \<^item> \<open>csv.Reader.ReadAll\<close> on the bytes of a file: the records, or an error.
\<close>

record Lib =
  RLPStringToTx :: "string \<Rightarrow> error + Transaction"
  Sender :: "Transaction \<Rightarrow> byte list \<times> error option"
  Keccak256 :: "byte list \<Rightarrow> byte list"
  csv_ReadAll :: "string \<Rightarrow> error + string list list"

text \<open>
  \<open>parseTx\<close>, lines 183-223. The error of \<open>types.Sender\<close> is dropped (\<open>_ = err\<close>) and
  \<open>from.Hex()\<close> is taken of the address that came with it. The parameter \<open>hash\<close> is
  not used by the source.
\<close>

definition parseTx :: "Lib \<Rightarrow> int \<Rightarrow> string \<Rightarrow> string \<Rightarrow> error + (TxSummaryEntry \<times> Transaction)" where
  "parseTx lib timestampMs hash rawTx =
     (case RLPStringToTx lib rawTx of
        Inl err \<Rightarrow> Inl err
      | Inr tx \<Rightarrow>
          (let from = fst (Sender lib tx);
               to = (case tx_To tx of None \<Rightarrow> [] | Some a \<Rightarrow> Address_Hex (Keccak256 lib) a);
               data4Bytes = (if length (tx_Data tx) \<ge> 4 then hexutil_Encode (take 4 (tx_Data tx))
                             else [])
           in Inr (\<lparr>Timestamp = timestampMs,
                     Hash = Hash_Hex (tx_Hash tx),
                     ChainID = int_dec (tx_ChainId tx),
                     From = Address_Hex (Keccak256 lib) from,
                     To = to,
                     Value = int_dec (tx_Value tx),
                     Nonce = nat_dec (unat (tx_Nonce tx)),
                     Gas = nat_dec (unat (tx_Gas tx)),
                     GasPrice = int_dec (tx_GasPrice tx),
                     GasTipCap = int_dec (tx_GasTipCap tx),
                     GasFeeCap = int_dec (tx_GasFeeCap tx),
                     DataSize = int (length (tx_Data tx)),
                     Data4Bytes = data4Bytes\<rparr>, tx)))"

section \<open>Loading the CSV files (common/types.go)\<close>

text \<open>
  \<open>bufio.Reader.ReadString('\n')\<close> called until the end of the file: every result
  ends with its newline, except a last unterminated rest, which is returned as it is.
  A read error other than the end of the file ends the loop as the end of the file does.
\<close>

fun read_lines :: "string \<Rightarrow> string list" where
  "read_lines [] = []"
| "read_lines (c # cs) =
     (if c = newline then [c] # read_lines cs
      else (case read_lines cs of [] \<Rightarrow> [[c]] | l # ls \<Rightarrow> (c # l) # ls))"

text \<open>\<open>strings.Trim(s, cutset)\<close>: leading and trailing bytes of the cutset removed.\<close>

definition Trim :: "string \<Rightarrow> string \<Rightarrow> string" where
  "Trim s cutset =
     rev (dropWhile (\<lambda>c. c \<in> set cutset) (rev (dropWhile (\<lambda>c. c \<in> set cutset) s)))"

text \<open>\<open>strings.Split(s, sep)\<close> for a separator of one byte: never an empty result.\<close>

fun Split :: "string \<Rightarrow> char \<Rightarrow> string list" where
  "Split [] sep = [[]]"
| "Split (c # cs) sep =
     (if c = sep then [] # Split cs sep
      else (case Split cs sep of [] \<Rightarrow> [[c]] | x # xs \<Rightarrow> (c # x) # xs))"

text \<open>
  \<open>strconv.Atoi\<close>: an optional sign, then one or more decimal digits and nothing else;
  the value must fit the 64-bit \<open>int\<close>.
\<close>

definition digit_of :: "char \<Rightarrow> nat option" where
  "digit_of c = map_of (zip ''0123456789'' [0, 1, 2, 3, 4, 5, 6, 7, 8, 9]) c"

fun digits_value :: "nat \<Rightarrow> string \<Rightarrow> nat option" where
  "digits_value n [] = Some n"
| "digits_value n (c # cs) =
     (case digit_of c of None \<Rightarrow> None | Some d \<Rightarrow> digits_value (n * 10 + d) cs)"

definition Atoi :: "string \<Rightarrow> int option" where
  "Atoi s =
     (case s of
        [] \<Rightarrow> None
      | c # cs \<Rightarrow>
          (let ds = (if c = CHR ''-'' \<or> c = CHR ''+'' then cs else s)
           in if ds = [] then None
              else (case digits_value 0 ds of
                      None \<Rightarrow> None
                    | Some n \<Rightarrow>
                        (let v = (if c = CHR ''-'' then - int n else int n)
                         in if - (2 ^ 63) \<le> v \<and> v < 2 ^ 63 then Some v else None))))"

text \<open>
  \<open>strings.ToLower\<close> on the ASCII letters, which is all a hexadecimal hash holds; other
  bytes are left as they are.
\<close>

definition lower_char :: "char \<Rightarrow> char" where
  "lower_char c =
     (case map_of (zip ''ABCDEFGHIJKLMNOPQRSTUVWXYZ'' ''abcdefghijklmnopqrstuvwxyz'') c of
        None \<Rightarrow> c | Some d \<Rightarrow> d)"

definition ToLower :: "string \<Rightarrow> string" where
  "ToLower s = map lower_char s"

text \<open>
  The file system as the loaders see it: \<open>os.Open\<close> of a name gives the bytes of the
  file, or fails (\<open>None\<close>).
\<close>

type_synonym filesys = "string \<rightharpoonup> string"

text \<open>
  \<open>LoadTxHashesFromMetadataCSVFiles\<close>, lines 226-256. A file that cannot be opened or
  read as CSV ends the function with the hashes collected so far.
\<close>

definition addKnownRecord :: "string list \<Rightarrow> (string \<rightharpoonup> bool) \<Rightarrow> (string \<rightharpoonup> bool)" where
  "addKnownRecord record txs =
     (if length record < 2 then txs else txs(ToLower (record ! 1) \<mapsto> True))"

fun loadKnownFiles :: "Lib \<Rightarrow> filesys \<Rightarrow> string list \<Rightarrow> (string \<rightharpoonup> bool) \<Rightarrow> (string \<rightharpoonup> bool)" where
  "loadKnownFiles lib fs [] txs = txs"
| "loadKnownFiles lib fs (filename # files) txs =
     (case fs filename of
        None \<Rightarrow> txs
      | Some content \<Rightarrow>
          (case csv_ReadAll lib content of
             Inl err \<Rightarrow> txs
           | Inr records \<Rightarrow> loadKnownFiles lib fs files (fold addKnownRecord records txs)))"

definition LoadTxHashesFromMetadataCSVFiles :: "Lib \<Rightarrow> filesys \<Rightarrow> string list \<Rightarrow> (string \<rightharpoonup> bool)" where
  "LoadTxHashesFromMetadataCSVFiles lib fs files = loadKnownFiles lib fs files Map.empty"

text \<open>\<open>prevKnownTxs[txHash]\<close>: the zero value \<open>false\<close> for a missing key.\<close>

definition isKnown :: "(string \<rightharpoonup> bool) \<Rightarrow> string \<Rightarrow> bool" where
  "isKnown prevKnownTxs txHash = (case prevKnownTxs txHash of None \<Rightarrow> False | Some b \<Rightarrow> b)"

text \<open>
  The body of the line loop from line 126 on, for a line that passed the length check.
\<close>

definition attemptLine ::
  "Lib \<Rightarrow> (string \<rightharpoonup> bool) \<Rightarrow> string \<Rightarrow> (string \<rightharpoonup> TxEnvelope) \<Rightarrow> (string \<rightharpoonup> TxEnvelope)" where
  "attemptLine lib prevKnownTxs l0 txs =
     (let l = Trim l0 [newline]; items = Split l CHR '','' in
      if length items \<noteq> 3 then txs
      else (case Atoi (items ! 0) of
              None \<Rightarrow> txs
            | Some txTimestamp \<Rightarrow>
                (let txHash = ToLower (items ! 1) in
                 if isKnown prevKnownTxs txHash then txs
                 else (case txs txHash of
                         Some e \<Rightarrow>
                           (if txTimestamp < Timestamp (Summary e)
                            then txs(txHash \<mapsto> e\<lparr>Summary := (Summary e)\<lparr>Timestamp := txTimestamp\<rparr>\<rparr>)
                            else txs)
                       | None \<Rightarrow>
                           (case parseTx lib txTimestamp txHash (items ! 2) of
                              Inl err \<Rightarrow> txs
                            | Inr (txSummary, tx) \<Rightarrow>
                                txs(txHash \<mapsto> \<lparr>Rlp = items ! 2, Summary = txSummary\<rparr>))))))"

text \<open>One turn of the line loop, lines 112-170, on the string \<open>ReadString\<close> returned.\<close>

definition processLine ::
  "Lib \<Rightarrow> (string \<rightharpoonup> bool) \<Rightarrow> string \<Rightarrow> (string \<rightharpoonup> TxEnvelope) \<Rightarrow> (string \<rightharpoonup> TxEnvelope)" where
  "processLine lib prevKnownTxs l txs =
     (if length l < 66 then txs else attemptLine lib prevKnownTxs l txs)"

definition loadFileContent ::
  "Lib \<Rightarrow> (string \<rightharpoonup> bool) \<Rightarrow> string \<Rightarrow> (string \<rightharpoonup> TxEnvelope) \<Rightarrow> (string \<rightharpoonup> TxEnvelope)" where
  "loadFileContent lib prevKnownTxs content txs =
     fold (processLine lib prevKnownTxs) (read_lines content) txs"

text \<open>The loop over the files, lines 97-180: a file that cannot be opened ends the load.\<close>

fun loadFiles ::
  "Lib \<Rightarrow> filesys \<Rightarrow> (string \<rightharpoonup> bool) \<Rightarrow> string list \<Rightarrow> (string \<rightharpoonup> TxEnvelope) \<Rightarrow> (string \<rightharpoonup> TxEnvelope)" where
  "loadFiles lib fs prevKnownTxs [] txs = txs"
| "loadFiles lib fs prevKnownTxs (filename # files) txs =
     (case fs filename of
        None \<Rightarrow> txs
      | Some content \<Rightarrow>
          loadFiles lib fs prevKnownTxs files (loadFileContent lib prevKnownTxs content txs))"

definition LoadTransactionCSVFiles ::
  "Lib \<Rightarrow> filesys \<Rightarrow> string list \<Rightarrow> string list \<Rightarrow> (string \<rightharpoonup> TxEnvelope)" where
  "LoadTransactionCSVFiles lib fs files knownTxsFiles =
     loadFiles lib fs (LoadTxHashesFromMetadataCSVFiles lib fs knownTxsFiles) files Map.empty"

section \<open>Sorting and writing (cmd/merge/transactions.go)\<close>

text \<open>
  \<open>sort.Slice(x, less)\<close> belongs to the Go standard library. It is modelled by the
  insertion sort the library runs on short slices:
  \<^verbatim>\<open>
  for i := a + 1; i < b; i++ {
      for j := i; j > a && less(data[j], data[j-1]); j-- { data.Swap(j, j-1) }
  }
  \<close>
  \<open>insert_left lt x pre\<close> (\<open>lt\<close> for the source's \<open>less\<close>) is the inner loop: \<open>pre\<close>
  holds the already sorted prefix
  \<open>data[i-1], data[i-2], ..., data[0]\<close> (nearest neighbour first) and \<open>x = data[i]\<close>
  moves left while \<open>lt x\<close> of its left neighbour holds.
\<close>

fun insert_left :: "('a \<Rightarrow> 'a \<Rightarrow> bool) \<Rightarrow> 'a \<Rightarrow> 'a list \<Rightarrow> 'a list" where
  "insert_left lt x [] = [x]"
| "insert_left lt x (y # ys) =
     (if lt x y then y # insert_left lt x ys else x # y # ys)"

definition sort_Slice :: "('a \<Rightarrow> 'a \<Rightarrow> bool) \<Rightarrow> 'a list \<Rightarrow> 'a list" where
  "sort_Slice lt xs = rev (foldl (\<lambda>pre x. insert_left lt x pre) [] xs)"

text \<open>
  Lines 118-120: the comparison of \<open>mergeTransactions\<close> looks at \<open>Timestamp\<close> only.
\<close>

definition sortTxs :: "MergedEntry list \<Rightarrow> MergedEntry list" where
  "sortTxs txsSlice = sort_Slice (\<lambda>a b. Timestamp a < Timestamp b) txsSlice"

text \<open>
  The three writers. The model keeps, for each output, the rows handed to it in order:
  a failed \<open>pw.Write\<close> or \<open>Fprintf\<close> is logged by the source and the loop goes on.
\<close>

record MergeOutput =
  parquetRows :: "MergedEntry list"
  csvTxsLines :: "string list"
  csvMetaLines :: "string list"
  cntTxWritten :: nat

text \<open>
  Modelled from the spec: \<open>TxSummaryEntry.RawTxHex\<close> is not under src/; the
  transactions CSV carries \<open>timestamp_ms,hash,raw_tx\<close>, the raw transaction as loaded.
\<close>

definition RawTxHex :: "MergedEntry \<Rightarrow> string" where
  "RawTxHex tx = RawTx tx"

definition csvTxsLine :: "MergedEntry \<Rightarrow> string" where
  "csvTxsLine tx =
     int_dec (Timestamp tx) @ '','' @ Hash tx @ '','' @ RawTxHex tx @ [newline]"

definition csvMetaLine :: "MergedEntry \<Rightarrow> string" where
  "csvMetaLine tx = Join (ToCSVRow tx) '','' @ [newline]"

text \<open>Lines 126-138: the headers written when the files are opened.\<close>

definition openOutputs :: "bool \<Rightarrow> MergeOutput" where
  "openOutputs writeTxCSV =
     \<lparr>parquetRows = [],
      csvTxsLines = (if writeTxCSV then [''timestamp_ms,hash,raw_tx'' @ [newline]] else []),
      csvMetaLines = [Join TxSummaryEntryCSVHeader '','' @ [newline]],
      cntTxWritten = 0\<rparr>"

text \<open>Lines 159-188: one iteration of the write loop.\<close>

definition writeTx :: "bool \<Rightarrow> MergedEntry \<Rightarrow> MergeOutput \<Rightarrow> MergeOutput" where
  "writeTx writeTxCSV tx out =
     (if InclusionDelayMs tx \<le> - 12000 then out
      else out\<lparr>parquetRows := parquetRows out @ [tx],
               csvTxsLines := (if writeTxCSV then csvTxsLines out @ [csvTxsLine tx]
                               else csvTxsLines out),
               csvMetaLines := csvMetaLines out @ [csvMetaLine tx],
               cntTxWritten := cntTxWritten out + 1\<rparr>)"

definition writeOutputs :: "bool \<Rightarrow> MergedEntry list \<Rightarrow> MergeOutput" where
  "writeOutputs writeTxCSV txsSlice = fold (writeTx writeTxCSV) txsSlice (openOutputs writeTxCSV)"

text \<open>Lines 113-189 together: sort the slice, then write it.\<close>

definition sortAndWrite :: "bool \<Rightarrow> MergedEntry list \<Rightarrow> MergeOutput" where
  "sortAndWrite writeTxCSV txsSlice = writeOutputs writeTxCSV (sortTxs txsSlice)"

text \<open>An entry with the fields the sort and the write loop read; the rest is empty.\<close>

definition exampleEntry :: "int \<Rightarrow> string \<Rightarrow> int \<Rightarrow> MergedEntry" where
  "exampleEntry ts h delay =
     \<lparr>Timestamp = ts, Hash = h, ChainID = ''1'', From = [], To = [], Value = ''0'',
      Nonce = ''0'', Gas = ''0'', GasPrice = ''0'', GasTipCap = ''0'', GasFeeCap = ''0'',
      DataSize = 0, Data4Bytes = [],
      Sources = [], IncludedAtBlockHeight = 0, IncludedBlockTimestamp = 0,
      InclusionDelayMs = delay, RawTx = ''0x''\<rparr>"

section \<open>The load, line by line\<close>

text \<open>
  The vocabulary of the claims about the load. A line is valid when it passes the
  checks of the line loop (66 bytes as read, three fields, a timestamp \<open>Atoi\<close> accepts);
  it then carries a timestamp, a lower-cased hash and the raw transaction text.
\<close>

definition validLine :: "string \<Rightarrow> (int \<times> string \<times> string) option" where
  "validLine l0 =
     (if length l0 < 66 then None
      else (let items = Split (Trim l0 [newline]) CHR '','' in
            if length items \<noteq> 3 then None
            else (case Atoi (items ! 0) of
                    None \<Rightarrow> None
                  | Some ts \<Rightarrow> Some (ts, ToLower (items ! 1), items ! 2))))"

text \<open>The lines the file loop reads: those of the files before the first that fails to open.\<close>

fun linesRead :: "filesys \<Rightarrow> string list \<Rightarrow> string list" where
  "linesRead fs [] = []"
| "linesRead fs (filename # files) =
     (case fs filename of None \<Rightarrow> [] | Some content \<Rightarrow> read_lines content @ linesRead fs files)"

text \<open>
  The occurrences of a hash among lines: timestamp and raw transaction of every valid
  line with that hash, in reading order.
\<close>

definition occurrencesIn :: "string list \<Rightarrow> string \<Rightarrow> (int \<times> string) list" where
  "occurrencesIn ls h =
     map (\<lambda>(ts, k, rlp). (ts, rlp))
       (filter (\<lambda>(ts, k, rlp). k = h) (List.map_filter validLine ls))"

definition occurrences :: "filesys \<Rightarrow> string list \<Rightarrow> string \<Rightarrow> (int \<times> string) list" where
  "occurrences fs files h = occurrencesIn (linesRead fs files) h"

text \<open>
  What the load is to keep for a hash, in the words of the claim: the first occurrence
  that decodes, with its timestamp replaced by the least timestamp among it and the
  occurrences after it.
\<close>

fun firstDecoded :: "Lib \<Rightarrow> string \<Rightarrow> (int \<times> string) list \<Rightarrow> TxEnvelope option" where
  "firstDecoded lib h [] = None"
| "firstDecoded lib h ((ts, rlp) # later) =
     (case parseTx lib ts h rlp of
        Inl err \<Rightarrow> firstDecoded lib h later
      | Inr (s, tx) \<Rightarrow> Some \<lparr>Rlp = rlp, Summary = s\<lparr>Timestamp := fold min (map fst later) ts\<rparr>\<rparr>)"

text \<open>The effect of one valid line on the map: lines 143-170.\<close>

definition applyOccurrence ::
  "Lib \<Rightarrow> (string \<rightharpoonup> bool) \<Rightarrow> int \<times> string \<times> string \<Rightarrow> (string \<rightharpoonup> TxEnvelope) \<Rightarrow> (string \<rightharpoonup> TxEnvelope)" where
  "applyOccurrence lib prevKnownTxs occ txs =
     (case occ of (txTimestamp, txHash, rlp) \<Rightarrow>
        if isKnown prevKnownTxs txHash then txs
        else (case txs txHash of
                Some e \<Rightarrow>
                  (if txTimestamp < Timestamp (Summary e)
                   then txs(txHash \<mapsto> e\<lparr>Summary := (Summary e)\<lparr>Timestamp := txTimestamp\<rparr>\<rparr>)
                   else txs)
              | None \<Rightarrow>
                  (case parseTx lib txTimestamp txHash rlp of
                     Inl err \<Rightarrow> txs
                   | Inr (txSummary, tx) \<Rightarrow> txs(txHash \<mapsto> \<lparr>Rlp = rlp, Summary = txSummary\<rparr>))))"

text \<open>
  A file as the claim about short lines sees it: lines of text, each ended by a newline,
  and a last rest without one (empty when the file ends with a newline).
\<close>

definition fileOf :: "string list \<Rightarrow> string \<Rightarrow> string" where
  "fileOf texts rest = concat (map (\<lambda>t. t @ [newline]) texts) @ rest"

text \<open>Lines of 64, 65 and 66 bytes of text, all three well-formed.\<close>

definition hash54 :: string where
  "hash54 = ''0x111122223333444455556666777788889999aaaabbbbccccdddd''"

definition text64 :: string where
  "text64 = ''1000,'' @ hash54 @ '',0xf8''"

definition text65 :: string where
  "text65 = ''1000,'' @ hash54 @ ''E,0xf8''"

definition text66 :: string where
  "text66 = ''1000,'' @ hash54 @ ''EE,0xf8''"

text \<open>A file system with one file of one line: 65 bytes of text, then the newline.\<close>

definition oneLineFs :: filesys where
  "oneLineFs = [''f.csv'' \<mapsto> text65 @ [newline]]"

section \<open>Example inputs\<close>

text \<open>
  The decoder, the signer, the hash and the CSV reader are parameters of the model. The
  examples run it with stand-ins: a decoder that rejects the empty payload \<open>0x\<close> and
  returns one fixed transaction for any other text, a signer whose recovery fails with
  the zero address (what \<open>types.Sender\<close> returns with its error), a constant hash,
  and a CSV reader for files without quotes.
\<close>

definition zeroAddress :: "byte list" where
  "zeroAddress = replicate 20 0"

definition exampleTx :: Transaction where
  "exampleTx =
     \<lparr>tx_Hash = [0xab, 0xab, 0xab, 0xab, 0xab, 0xab, 0xab, 0xab, 0xab, 0xab, 0xab, 0xab,
                 0xab, 0xab, 0xab, 0xab, 0xab, 0xab, 0xab, 0xab, 0xab, 0xab, 0xab, 0xab,
                 0xab, 0xab, 0xab, 0xab, 0xab, 0xab, 0xab, 0xab],
      tx_ChainId = 1, tx_To = None, tx_Value = 0, tx_Nonce = 7, tx_Gas = 21000,
      tx_GasPrice = 5, tx_GasTipCap = 5, tx_GasFeeCap = 5, tx_Data = []\<rparr>"

definition exampleLib :: Lib where
  "exampleLib =
     \<lparr>RLPStringToTx = (\<lambda>r. if r = ''0x'' then Inl (Err ''empty payload'') else Inr exampleTx),
      Sender = (\<lambda>tx. (zeroAddress, Some (Err ''invalid signature''))),
      Keccak256 = (\<lambda>bs. replicate 32 0),
      csv_ReadAll = (\<lambda>c. Inr (map (\<lambda>l. Split (Trim l [newline]) CHR '','') (read_lines c)))\<rparr>"

definition exampleSummary :: "int \<Rightarrow> TxSummaryEntry" where
  "exampleSummary ts =
     \<lparr>Timestamp = ts,
      Hash = ''0xabababababababababababababababababababababababababababababababab'',
      ChainID = ''1'', From = ''0x0000000000000000000000000000000000000000'', To = [],
      Value = ''0'', Nonce = ''7'', Gas = ''21000'', GasPrice = ''5'', GasTipCap = ''5'',
      GasFeeCap = ''5'', DataSize = 0, Data4Bytes = []\<rparr>"

text \<open>
  Files for the examples of the load: every line carries the same hash; a line with the
  raw transaction \<open>0x\<close> does not decode, one with \<open>0xf8\<close> does.
\<close>

definition exampleHash :: string where
  "exampleHash = ''0xabababababababababababababababababababababababababababababababab''"

definition exampleHashUpper :: string where
  "exampleHashUpper = ''0xABABABABABABABABABABABABABABABABABABABABABABABABABABABABABABABAB''"

definition lineBad :: "string \<Rightarrow> string" where
  "lineBad ts = ts @ '','' @ exampleHash @ '',0x'' @ [newline]"

definition lineGood :: "string \<Rightarrow> string" where
  "lineGood ts = ts @ '','' @ exampleHash @ '',0xf8'' @ [newline]"

definition exampleFs :: filesys where
  "exampleFs =
     [''a.csv'' \<mapsto> lineBad ''5'' @ lineGood ''10'',
      ''b.csv'' \<mapsto> lineGood ''10'' @ lineBad ''3'',
      ''c.csv'' \<mapsto> lineBad ''5'' @ lineGood ''10'' @ lineGood ''7'',
      ''d.csv'' \<mapsto> lineBad ''5'',
      ''in.csv'' \<mapsto> lineGood ''10'',
      ''known.csv'' \<mapsto> ''1000,'' @ exampleHashUpper @ '',1'' @ [newline]]"

section \<open>The merge command (cmd/merge/transactions.go)\<close>

record MergeOpts =
  outDir :: string
  fnPrefix :: string
  knownTxsFiles :: "string list"
  sourcelogFiles :: "string list"
  writeTxCSV :: bool
  checkNodeURI :: string
  inputFiles :: "string list"

text \<open>
  What \<open>mergeTransactions\<close> meets outside the files under src/:
  \<^item> the input side of the file system, and whether \<open>os.MkdirAll\<close> succeeds;
  \<^item> \<open>filepath.Join\<close>;
  \<^item> \<open>common.LoadSourcelogFiles\<close>: for a hash, the sources with their timestamps, in
    the order \<open>range\<close> visits them;
  \<^item> \<open>UpdateInclusionStatus\<close>, the lookup at the check node, as the entry it leaves;
  \<^item> the order in which \<open>range txs\<close> visits the hashes when the slice is built.
\<close>

record MergeEnv =
  envLib :: Lib
  fsys :: filesys
  MkdirAll :: "string \<Rightarrow> bool"
  filepath_Join :: "string \<Rightarrow> string \<Rightarrow> string"
  LoadSourcelogFiles :: "string list \<Rightarrow> string \<Rightarrow> (string \<times> int) list"
  UpdateInclusionStatus :: "MergedEntry \<Rightarrow> MergedEntry"
  rangeOrder :: "string list"

datatype fatal = NoInputFiles | MkdirAllFailed | OutputExists string | NotAFile string

text \<open>
  The run either ends in a fatal log call, before any output file is opened, or it
  finishes with the parquet file, the metadata CSV and, when asked for, the transactions
  CSV written under their names. Creating and writing the output files is taken to
  succeed; the waiting for the workers of the inclusion check is not modelled.
\<close>

datatype MergeResult =
  Fatal fatal
| Finished string string "string option" MergeOutput

text \<open>
  Modelled from the spec: \<open>common.MustNotExist\<close> and \<open>common.MustBeFile\<close> are not under
  src/. A configuration error is fatal and aborts the run before any output is written:
  \<open>MustNotExist\<close> lets the run go on only when nothing exists under the name,
  \<open>MustBeFile\<close> only when the name is a file that can be read.
\<close>

definition MustNotExist :: "filesys \<Rightarrow> string \<Rightarrow> bool" where
  "MustNotExist fs fn = (fs fn = None)"

definition MustBeFile :: "filesys \<Rightarrow> string \<Rightarrow> bool" where
  "MustBeFile fs fn = (fs fn \<noteq> None)"

text \<open>Lines 44-51: the parquet file, the metadata CSV, the transactions CSV.\<close>

definition outputNames :: "(string \<Rightarrow> string \<Rightarrow> string) \<Rightarrow> string \<Rightarrow> string \<Rightarrow> string \<times> string \<times> string" where
  "outputNames join dir prefix =
     (if prefix \<noteq> []
      then (join dir (prefix @ ''.parquet''), join dir (prefix @ ''.csv''),
            join dir (prefix @ ''_transactions.csv''))
      else (join dir ''transactions.parquet'', join dir ''metadata.csv'',
            join dir ''transactions.csv''))"

text \<open>
  The loaded envelope as the entry the merge works on: the summary, no sources and no
  inclusion yet, the raw transaction as loaded.
\<close>

definition toMergedEntry :: "TxEnvelope \<Rightarrow> MergedEntry" where
  "toMergedEntry e =
     \<lparr>Timestamp = Timestamp (Summary e), Hash = Hash (Summary e), ChainID = ChainID (Summary e),
      From = From (Summary e), To = To (Summary e), Value = Value (Summary e),
      Nonce = Nonce (Summary e), Gas = Gas (Summary e), GasPrice = GasPrice (Summary e),
      GasTipCap = GasTipCap (Summary e), GasFeeCap = GasFeeCap (Summary e),
      DataSize = DataSize (Summary e), Data4Bytes = Data4Bytes (Summary e),
      Sources = [], IncludedAtBlockHeight = 0, IncludedBlockTimestamp = 0,
      InclusionDelayMs = 0, RawTx = Rlp e\<rparr>"

text \<open>Lines 85-103: the sources of a hash, sorted by their timestamps.\<close>

definition sourcesOf :: "(string \<times> int) list \<Rightarrow> string list" where
  "sourcesOf txSources = map fst (sort_Slice (\<lambda>a b. snd a < snd b) txSources)"

text \<open>Lines 77-117: the entries in the order the map is ranged over, enriched.\<close>

definition enrichedSlice :: "MergeEnv \<Rightarrow> MergeOpts \<Rightarrow> (string \<rightharpoonup> TxEnvelope) \<Rightarrow> MergedEntry list" where
  "enrichedSlice env opts txs =
     (let sourcelog = LoadSourcelogFiles env (sourcelogFiles opts)
      in List.map_filter
           (\<lambda>hash. case txs hash of
                      None \<Rightarrow> None
                    | Some e \<Rightarrow>
                        Some (UpdateInclusionStatus env
                                ((toMergedEntry e)\<lparr>Sources := sourcesOf (sourcelog hash)\<rparr>)))
           (rangeOrder env))"

definition mergeTransactions :: "MergeEnv \<Rightarrow> MergeOpts \<Rightarrow> MergeResult" where
  "mergeTransactions env opts =
     (if inputFiles opts = [] then Fatal NoInputFiles
      else if \<not> MkdirAll env (outDir opts) then Fatal MkdirAllFailed
      else (case outputNames (filepath_Join env) (outDir opts) (fnPrefix opts) of
              (fnParquetTxs, fnCSVMeta, fnCSVTxs) \<Rightarrow>
        if \<not> MustNotExist (fsys env) fnParquetTxs then Fatal (OutputExists fnParquetTxs)
        else if \<not> MustNotExist (fsys env) fnCSVMeta then Fatal (OutputExists fnCSVMeta)
        else if \<not> MustNotExist (fsys env) fnCSVTxs then Fatal (OutputExists fnCSVTxs)
        else (case find (\<lambda>fn. \<not> MustBeFile (fsys env) fn) (inputFiles opts) of
                Some fn \<Rightarrow> Fatal (NotAFile fn)
              | None \<Rightarrow>
          (case find (\<lambda>fn. \<not> MustBeFile (fsys env) fn) (sourcelogFiles opts) of
             Some fn \<Rightarrow> Fatal (NotAFile fn)
           | None \<Rightarrow>
               (let txs = LoadTransactionCSVFiles (envLib env) (fsys env) (inputFiles opts)
                            (knownTxsFiles opts)
                in Finished fnParquetTxs fnCSVMeta
                     (if writeTxCSV opts then Some fnCSVTxs else None)
                     (sortAndWrite (writeTxCSV opts) (enrichedSlice env opts txs)))))))"

definition exampleEnv :: MergeEnv where
  "exampleEnv =
     \<lparr>envLib = exampleLib, fsys = exampleFs, MkdirAll = (\<lambda>dir. True),
      filepath_Join = (\<lambda>dir name. dir @ ''/'' @ name),
      LoadSourcelogFiles = (\<lambda>files hash. []),
      UpdateInclusionStatus = (\<lambda>tx. tx),
      rangeOrder = [exampleHash]\<rparr>"

definition exampleOpts :: "string list \<Rightarrow> string list \<Rightarrow> MergeOpts" where
  "exampleOpts inputs known =
     \<lparr>outDir = ''out'', fnPrefix = [], knownTxsFiles = known, sourcelogFiles = [],
      writeTxCSV = False, checkNodeURI = [], inputFiles = inputs\<rparr>"

section \<open>The latency comparison of the analyzer\<close>

text \<open>
  The timestamps of the sourcelog are \<open>int64\<close>; their difference is taken, so they are
  64-bit words here: subtraction and negation wrap, comparison reads them signed.
  A Go map that is ranged over is given as the list of its entries in the order
  \<open>range\<close> visits them, whatever that order is; the keys of a map are distinct.
\<close>

type_synonym int64 = "64 word"


text \<open>
  The histograms are those of the library \<open>github.com/HdrHistogram/hdrhistogram-go\<close>,
  which is outside the repository. \<open>latencyComp\<close> builds both of its histograms with
  \<open>hdrhistogram.New(1, 5000000, 3)\<close> and calls \<open>RecordValue\<close> on them, dropping the
  error it returns. The structure and the recording path follow the library's \<open>hdr.go\<close>.
  Fields and indices of type \<open>int32\<close> are integers here, with the conversion \<open>int32(...)\<close>
  written out wherever the library computes in that type; \<open>totalCount\<close> and the counters
  are \<open>int64\<close> and wrap.
\<close>

definition int32 :: "int \<Rightarrow> int" where
  "int32 x = signed_take_bit 31 x"

text \<open>
  A shift count \<open>uint(s)\<close>: a negative \<open>s\<close> becomes a count above 63, and any such count
  shifts every bit out.
\<close>

definition shift_count :: "int \<Rightarrow> nat" where
  "shift_count s = (if s < 0 then 64 else nat s)"

text \<open>\<open>bits.Len\<close>, the number of bits of a number, and \<open>bits.LeadingZeros64\<close>.\<close>

fun Len :: "nat \<Rightarrow> nat" where
  "Len 0 = 0"
| "Len (Suc n) = Suc (Len (Suc n div 2))"

definition LeadingZeros64 :: "int64 \<Rightarrow> nat" where
  "LeadingZeros64 x = 64 - Len (unat x)"

record Histogram =
  lowestDiscernibleValue :: int64
  highestTrackableValue :: int64
  unitMagnitude :: int
  significantFigures :: int
  subBucketHalfCountMagnitude :: int
  subBucketHalfCount :: int
  subBucketMask :: int64
  subBucketCount :: int
  bucketCount :: int
  countsLen :: int
  totalCount :: int64
  counts :: "int64 list"

text \<open>
  \<open>hdrhistogram.New(1, 5000000, 3)\<close>, the one way \<open>latencyComp\<close> calls the constructor.
  The constructor works with floating-point logarithms; its arithmetic is carried out
  here for these arguments. Three significant figures ask for
  \<open>2 * 10^3\<close> values at unit resolution, the next power of two is \<open>2^11\<close>: a sub-bucket
  count of 2048, half of it 1024 with magnitude 10. The lowest value 1 gives the unit
  magnitude 0 and the mask \<open>2047\<close>. Doubling 2048 until it is no longer below 5000000
  takes twelve steps, which makes 13 buckets and \<open>(13 + 1) * 1024\<close> counters, all zero.
\<close>

definition New :: Histogram where
  "New =
     \<lparr>lowestDiscernibleValue = 1, highestTrackableValue = 5000000, unitMagnitude = 0,
      significantFigures = 3, subBucketHalfCountMagnitude = 10, subBucketHalfCount = 1024,
      subBucketMask = 2047, subBucketCount = 2048, bucketCount = 13, countsLen = 14336,
      totalCount = 0, counts = replicate 14336 0\<rparr>"

definition getBucketIndex :: "Histogram \<Rightarrow> int64 \<Rightarrow> int" where
  "getBucketIndex h v =
     (let pow2Ceiling = 64 - int (LeadingZeros64 (v OR subBucketMask h))
      in int32 (pow2Ceiling - unitMagnitude h - (subBucketHalfCountMagnitude h + 1)))"

definition getSubBucketIdx :: "Histogram \<Rightarrow> int64 \<Rightarrow> int \<Rightarrow> int" where
  "getSubBucketIdx h v idx =
     int32 (sint (signed_drop_bit (shift_count (idx + unitMagnitude h)) v))"

definition countsIndex :: "Histogram \<Rightarrow> int \<Rightarrow> int \<Rightarrow> int" where
  "countsIndex h bucketIdx subBucketIdx =
     (let bucketBaseIdx =
            int32 (push_bit (shift_count (subBucketHalfCountMagnitude h)) (int32 (bucketIdx + 1)));
          offsetInBucket = int32 (subBucketIdx - subBucketHalfCount h)
      in int32 (bucketBaseIdx + offsetInBucket))"

definition countsIndexFor :: "Histogram \<Rightarrow> int64 \<Rightarrow> int" where
  "countsIndexFor h v =
     (let bucketIdx = getBucketIndex h v;
          subBucketIdx = getSubBucketIdx h v bucketIdx
      in countsIndex h bucketIdx subBucketIdx)"

text \<open>
  \<open>setCountAtIndex\<close> is reached only with an index below \<open>countsLen\<close>, which is the length
  of \<open>counts\<close> in every histogram \<open>New\<close> builds.
\<close>

definition setCountAtIndex :: "nat \<Rightarrow> int64 \<Rightarrow> Histogram \<Rightarrow> Histogram" where
  "setCountAtIndex idx n h =
     h\<lparr>counts := (counts h)[idx := counts h ! idx + n], totalCount := totalCount h + n\<rparr>"

text \<open>
  \<open>RecordValues\<close> and \<open>RecordValue\<close>: a value whose index falls outside the counters is
  refused with an error and the histogram stays as it was.
\<close>

definition RecordValues :: "int64 \<Rightarrow> int64 \<Rightarrow> Histogram \<Rightarrow> Histogram \<times> error option" where
  "RecordValues v n h =
     (let idx = countsIndexFor h v in
      if idx < 0 \<or> countsLen h \<le> idx
      then (h, Some (Err (''value '' @ int_dec (sint v) @ '' is too large to be recorded'')))
      else (setCountAtIndex (nat idx) n h, None))"

definition RecordValue :: "int64 \<Rightarrow> Histogram \<Rightarrow> Histogram \<times> error option" where
  "RecordValue v h = RecordValues v 1 h"













text \<open>
  The histogram that holds the values \<open>vs\<close>: as \<open>New\<close> builds it, except that every
  counter is the number of values of \<open>vs\<close> whose index it is, and \<open>totalCount\<close> is the
  number of values.
\<close>

definition holding :: "int64 multiset \<Rightarrow> Histogram" where
  "holding vs =
     New\<lparr>counts := map (\<lambda>i. of_nat (size (filter_mset (\<lambda>v. countsIndexFor New v = int i) vs)))
                      [0..<14336],
         totalCount := of_nat (size vs)\<rparr>"




definition bucketOf :: "int64 \<Rightarrow> nat" where
  "bucketOf v = max 11 (Len (unat v)) - 11"





section \<open>Properties of the sort and of the write loop\<close>

lemma mset_insert_left: "mset (insert_left lt x pre) = add_mset x (mset pre)"
  by (induction pre) auto

lemma set_insert_left: "set (insert_left lt x pre) = insert x (set pre)"
  by (induction pre) auto

lemma mset_foldl_insert_left:
  "mset (foldl (\<lambda>pre x. insert_left lt x pre) acc xs) = mset acc + mset xs"
  by (induction xs arbitrary: acc) (auto simp: mset_insert_left)

lemma mset_sort_Slice: "mset (sort_Slice lt xs) = mset xs"
  by (simp add: sort_Slice_def mset_foldl_insert_left)

lemma desc_insert_left:
  "sorted_wrt (\<lambda>a b. key b \<le> key a) pre \<Longrightarrow>
   sorted_wrt (\<lambda>a b. (key b :: int) \<le> key a) (insert_left (\<lambda>a b. key a < key b) x pre)"
  by (induction pre) (auto simp: set_insert_left)

lemma desc_foldl_insert_left:
  "sorted_wrt (\<lambda>a b. key b \<le> key a) acc \<Longrightarrow>
   sorted_wrt (\<lambda>a b. (key b :: int) \<le> key a)
     (foldl (\<lambda>pre x. insert_left (\<lambda>a b. key a < key b) x pre) acc xs)"
  by (induction xs arbitrary: acc) (auto simp: desc_insert_left)

lemma sorted_sort_Slice:
  "sorted (map key (sort_Slice (\<lambda>a b. (key a :: int) < key b) xs))"
proof -
  have "sorted_wrt (\<lambda>a b. key b \<le> key a)
          (foldl (\<lambda>pre x. insert_left (\<lambda>a b. key a < key b) x pre) [] xs)"
    by (rule desc_foldl_insert_left) simp
  then have "sorted_wrt (\<lambda>a b. key a \<le> key b) (sort_Slice (\<lambda>a b. key a < key b) xs)"
    by (simp add: sort_Slice_def sorted_wrt_rev)
  then show ?thesis
    by (simp add: sorted_wrt_map)
qed

lemma parquetRows_fold_writeTx:
  "parquetRows (fold (writeTx w) xs out) =
     parquetRows out @ filter (\<lambda>tx. - 12000 < InclusionDelayMs tx) xs"
  by (induction xs arbitrary: out) (auto simp: writeTx_def)

lemma csvMetaLines_fold_writeTx:
  "csvMetaLines (fold (writeTx w) xs out) =
     csvMetaLines out @ map csvMetaLine (filter (\<lambda>tx. - 12000 < InclusionDelayMs tx) xs)"
  by (induction xs arbitrary: out) (auto simp: writeTx_def)

lemma csvTxsLines_fold_writeTx:
  "csvTxsLines (fold (writeTx w) xs out) =
     csvTxsLines out @
       (if w then map csvTxsLine (filter (\<lambda>tx. - 12000 < InclusionDelayMs tx) xs) else [])"
  by (induction xs arbitrary: out) (auto simp: writeTx_def)

lemma cntTxWritten_fold_writeTx:
  "cntTxWritten (fold (writeTx w) xs out) =
     cntTxWritten out + length (filter (\<lambda>tx. - 12000 < InclusionDelayMs tx) xs)"
  by (induction xs arbitrary: out) (auto simp: writeTx_def)

lemma insert_left_map:
  "(\<And>a b. lt (g a) (g b) = lt a b) \<Longrightarrow>
   insert_left lt (g x) (map g pre) = map g (insert_left lt x pre)"
  by (induction pre) auto

lemma foldl_insert_left_map:
  "(\<And>a b. lt (g a) (g b) = lt a b) \<Longrightarrow>
   foldl (\<lambda>pre x. insert_left lt x pre) (map g acc) (map g xs) =
     map g (foldl (\<lambda>pre x. insert_left lt x pre) acc xs)"
proof (induction xs arbitrary: acc)
  case Nil
  then show ?case by simp
next
  case (Cons a xs)
  have "foldl (\<lambda>pre x. insert_left lt x pre) (map g acc) (map g (a # xs)) =
        foldl (\<lambda>pre x. insert_left lt x pre) (map g (insert_left lt a acc)) (map g xs)"
    using Cons.prems by (simp add: insert_left_map [of lt g])
  also have "\<dots> = map g (foldl (\<lambda>pre x. insert_left lt x pre) (insert_left lt a acc) xs)"
    by (rule Cons.IH) (rule Cons.prems)
  finally show ?case by simp
qed

lemma sort_Slice_map:
  "(\<And>a b. lt (g a) (g b) = lt a b) \<Longrightarrow> sort_Slice lt (map g xs) = map g (sort_Slice lt xs)"
  using foldl_insert_left_map [of lt g "[]" xs] by (simp add: sort_Slice_def rev_map)

lemma sorted_sortTxs: "sorted (map Timestamp (sortTxs xs))"
  unfolding sortTxs_def by (rule sorted_sort_Slice)

lemma parquetRows_sortAndWrite:
  "parquetRows (sortAndWrite w xs) = filter (\<lambda>tx. - 12000 < InclusionDelayMs tx) (sortTxs xs)"
  by (simp add: sortAndWrite_def writeOutputs_def parquetRows_fold_writeTx openOutputs_def)

subsection \<open>The order of the written rows\<close>

text \<open>
  C4. The claim: before writing, \<open>mergeTransactions\<close> sorts by \<open>timestamp_ms\<close> ascending
  and, among equal timestamps, by \<open>hash\<close> ascending, so that two entries with timestamp
  1000 and hashes H2 and H1 are written H1 first. The comparison function of the source
  reads \<open>Timestamp\<close> alone. With the slice holding H2 before H1 (the order in which the
  map was ranged over), the rows are written H2 first.
\<close>

theorem sort_tie_break_counterexample:
  "map Hash (parquetRows (sortAndWrite False
      [exampleEntry 1000 ''H2'' 0, exampleEntry 1000 ''H1'' 0])) = [''H2'', ''H1''] \<and>
   map Hash (parquetRows (sortAndWrite False
      [exampleEntry 1000 ''H2'' 0, exampleEntry 1000 ''H1'' 0])) \<noteq> [''H1'', ''H2'']"
  by (simp add: sortAndWrite_def writeOutputs_def sortTxs_def sort_Slice_def writeTx_def
      openOutputs_def exampleEntry_def)

text \<open>
  C4, as the code has it: the sorted slice is a rearrangement of the entries, ascending
  in \<open>timestamp_ms\<close>, and the sort has no secondary key: rewriting every hash by any
  function \<open>f\<close> before sorting gives the same arrangement as rewriting after sorting, so
  the place of an entry never depends on its hash.
\<close>

theorem sortTxs_timestamp_only:
  "sorted (map Timestamp (sortTxs txsSlice)) \<and>
   mset (sortTxs txsSlice) = mset txsSlice \<and>
   sortTxs (map (\<lambda>tx. tx\<lparr>Hash := f (Hash tx)\<rparr>) txsSlice) =
     map (\<lambda>tx. tx\<lparr>Hash := f (Hash tx)\<rparr>) (sortTxs txsSlice)"
proof (intro conjI)
  show "sorted (map Timestamp (sortTxs txsSlice))"
    by (rule sorted_sortTxs)
  show "mset (sortTxs txsSlice) = mset txsSlice"
    by (simp add: sortTxs_def mset_sort_Slice)
  show "sortTxs (map (\<lambda>tx. tx\<lparr>Hash := f (Hash tx)\<rparr>) txsSlice) =
          map (\<lambda>tx. tx\<lparr>Hash := f (Hash tx)\<rparr>) (sortTxs txsSlice)"
    unfolding sortTxs_def by (rule sort_Slice_map) simp
qed

text \<open>
  C5. In the rows handed to the parquet writer, \<open>timestamp_ms\<close> never decreases from one
  row to the next.
\<close>

theorem parquet_rows_nondecreasing:
  "\<forall>i. Suc i < length (parquetRows (sortAndWrite w txsSlice)) \<longrightarrow>
     Timestamp (parquetRows (sortAndWrite w txsSlice) ! i)
       \<le> Timestamp (parquetRows (sortAndWrite w txsSlice) ! Suc i)"
proof (intro allI impI)
  fix i
  let ?rows = "parquetRows (sortAndWrite w txsSlice)"
  assume i: "Suc i < length ?rows"
  have "sorted (map Timestamp ?rows)"
    unfolding parquetRows_sortAndWrite by (rule sorted_filter) (rule sorted_sortTxs)
  then have "map Timestamp ?rows ! i \<le> map Timestamp ?rows ! Suc i"
    using i by (intro sorted_nth_mono) simp_all
  then show "Timestamp (?rows ! i) \<le> Timestamp (?rows ! Suc i)"
    using i by simp
qed

theorem parquet_rows_nondecreasing_witness:
  "Suc 0 < length (parquetRows (sortAndWrite True
      [exampleEntry 3000 ''H3'' 0, exampleEntry 1000 ''H1'' 0, exampleEntry 2000 ''H2'' (- 15000)])) \<and>
   Timestamp (parquetRows (sortAndWrite True
      [exampleEntry 3000 ''H3'' 0, exampleEntry 1000 ''H1'' 0, exampleEntry 2000 ''H2'' (- 15000)]) ! 0)
     \<le> Timestamp (parquetRows (sortAndWrite True
      [exampleEntry 3000 ''H3'' 0, exampleEntry 1000 ''H1'' 0, exampleEntry 2000 ''H2'' (- 15000)]) ! Suc 0)"
proof -
  let ?xs = "[exampleEntry 3000 ''H3'' 0, exampleEntry 1000 ''H1'' 0,
              exampleEntry 2000 ''H2'' (- 15000)]"
  have len: "Suc 0 < length (parquetRows (sortAndWrite True ?xs))"
    by (simp add: parquetRows_sortAndWrite sortTxs_def sort_Slice_def exampleEntry_def)
  from parquet_rows_nondecreasing [of True ?xs, rule_format, OF len] len
  show ?thesis by simp
qed

subsection \<open>The outlier filter\<close>

text \<open>
  C6. Of the sorted slice, exactly the entries with \<open>InclusionDelayMs > -12000\<close> are
  written, in the order of the slice: to the parquet file and to the metadata CSV (after
  its header) always, to the transactions CSV (after its header) when \<open>write-tx-csv\<close> is
  set, which otherwise is not written at all. No entry with
  \<open>InclusionDelayMs \<le> -12000\<close> reaches any of the three.
\<close>

theorem outliers_never_written:
  "parquetRows (sortAndWrite w txsSlice) =
     filter (\<lambda>tx. - 12000 < InclusionDelayMs tx) (sortTxs txsSlice) \<and>
   csvMetaLines (sortAndWrite w txsSlice) =
     (Join TxSummaryEntryCSVHeader '','' @ [newline]) #
       map csvMetaLine (filter (\<lambda>tx. - 12000 < InclusionDelayMs tx) (sortTxs txsSlice)) \<and>
   csvTxsLines (sortAndWrite w txsSlice) =
     (if w then (''timestamp_ms,hash,raw_tx'' @ [newline]) #
                map csvTxsLine (filter (\<lambda>tx. - 12000 < InclusionDelayMs tx) (sortTxs txsSlice))
      else []) \<and>
   cntTxWritten (sortAndWrite w txsSlice) =
     length (filter (\<lambda>tx. - 12000 < InclusionDelayMs tx) (sortTxs txsSlice))"
  by (simp add: sortAndWrite_def writeOutputs_def parquetRows_fold_writeTx
      csvMetaLines_fold_writeTx csvTxsLines_fold_writeTx cntTxWritten_fold_writeTx
      openOutputs_def)

section \<open>Properties of parseTx\<close>

lemma length_hex_encode: "length (hex_encode bs) = 2 * length bs"
  by (induction bs) (auto simp: hex_encode_def)

lemma length_Address_Hex: "length (Address_Hex k a) = 2 + 2 * length a"
  by (simp add: Address_Hex_def Let_def length_hex_encode)

lemma hex_encode_zeros: "hex_encode (replicate n 0) = replicate (2 * n) CHR ''0''"
  by (induction n) (auto simp: hex_encode_def hex_digit_def)

lemma checksum_char_zero: "checksum_char h i CHR ''0'' = CHR ''0''"
  by (simp add: checksum_char_def)

lemma Address_Hex_zeroAddress:
  "Address_Hex k zeroAddress = ''0x0000000000000000000000000000000000000000''"
  unfolding zeroAddress_def
  apply (simp add: Address_Hex_def Let_def hex_encode_zeros)
  apply (simp add: eval_nat_numeral checksum_char_zero upt_rec)
  done

lemma nat_dec_examples:
  "nat_dec 21000 = ''21000''" "nat_dec 7 = ''7''" "nat_dec 5 = ''5''" "nat_dec 0 = ''0''"
  by (simp_all add: nat_dec.simps digit_char_def)

lemma nat_dec_one: "nat_dec (Suc 0) = ''1''"
  by (subst nat_dec.simps) (simp add: digit_char_def)

lemma parseTx_exampleLib:
  "r \<noteq> ''0x'' \<Longrightarrow> parseTx exampleLib ts h r = Inr (exampleSummary ts, exampleTx)"
  by (simp add: parseTx_def exampleLib_def exampleTx_def exampleSummary_def Let_def
      Address_Hex_zeroAddress Hash_Hex_def hexutil_Encode_def int_dec_def nat_dec_examples
      nat_dec_one hex_encode_def hex_digit_def)

lemma parseTx_exampleLib_empty: "parseTx exampleLib ts h ''0x'' = Inl (Err ''empty payload'')"
  by (simp add: parseTx_def exampleLib_def)

text \<open>
  C1. The claim: when the raw transaction decodes and the signature recovery fails, the
  entry is returned with \<open>From = ""\<close>. The source drops the error and renders the
  address that came with it: with the zero address the field is the 42 characters
  \<open>0x0000000000000000000000000000000000000000\<close>, not the empty string.
\<close>

theorem parseTx_from_counterexample:
  "RLPStringToTx exampleLib ''0xf8'' = Inr exampleTx \<and>
   snd (Sender exampleLib exampleTx) = Some (Err ''invalid signature'') \<and>
   parseTx exampleLib 1000 ''h'' ''0xf8'' =
     Inr (\<lparr>Timestamp = 1000,
            Hash = ''0xabababababababababababababababababababababababababababababababab'',
            ChainID = ''1'', From = ''0x0000000000000000000000000000000000000000'', To = [],
            Value = ''0'', Nonce = ''7'', Gas = ''21000'', GasPrice = ''5'', GasTipCap = ''5'',
            GasFeeCap = ''5'', DataSize = 0, Data4Bytes = []\<rparr>, exampleTx) \<and>
   From (fst (projr (parseTx exampleLib 1000 ''h'' ''0xf8''))) \<noteq> []"
  using parseTx_exampleLib [of "''0xf8''" 1000 "''h''"]
  by (simp add: exampleLib_def exampleSummary_def)

text \<open>
  C1, as the code has it: when the raw transaction decodes and the signature recovery
  fails, \<open>parseTx\<close> still returns an entry and no error. Its \<open>From\<close> is the checksummed
  hexadecimal text of the address returned together with the recovery error, which is
  never empty; every other field follows the usual rules: the given timestamp, the hash
  and the first four data bytes in \<open>0x\<close> hexadecimal (no data bytes when there are
  fewer than four), the empty \<open>To\<close> for a contract creation, the numbers in base 10, the
  data size in bytes.
\<close>

theorem parseTx_sender_failure:
  assumes "RLPStringToTx lib rawTx = Inr tx" and "snd (Sender lib tx) = Some err"
  shows "parseTx lib timestampMs hash rawTx =
           Inr (\<lparr>Timestamp = timestampMs,
                  Hash = ''0x'' @ hex_encode (tx_Hash tx),
                  ChainID = int_dec (tx_ChainId tx),
                  From = Address_Hex (Keccak256 lib) (fst (Sender lib tx)),
                  To = (case tx_To tx of None \<Rightarrow> [] | Some a \<Rightarrow> Address_Hex (Keccak256 lib) a),
                  Value = int_dec (tx_Value tx),
                  Nonce = nat_dec (unat (tx_Nonce tx)),
                  Gas = nat_dec (unat (tx_Gas tx)),
                  GasPrice = int_dec (tx_GasPrice tx),
                  GasTipCap = int_dec (tx_GasTipCap tx),
                  GasFeeCap = int_dec (tx_GasFeeCap tx),
                  DataSize = int (length (tx_Data tx)),
                  Data4Bytes = (if 4 \<le> length (tx_Data tx)
                                then ''0x'' @ hex_encode (take 4 (tx_Data tx)) else [])\<rparr>, tx) \<and>
         length (Address_Hex (Keccak256 lib) (fst (Sender lib tx))) =
           2 + 2 * length (fst (Sender lib tx))"
  using assms
  by (simp add: parseTx_def Let_def Hash_Hex_def hexutil_Encode_def length_Address_Hex)

theorem parseTx_sender_failure_witness:
  "RLPStringToTx exampleLib ''0xf8'' = Inr exampleTx \<and>
   snd (Sender exampleLib exampleTx) = Some (Err ''invalid signature'') \<and>
   From (fst (projr (parseTx exampleLib 1000 ''h'' ''0xf8''))) =
     ''0x0000000000000000000000000000000000000000'' \<and>
   Gas (fst (projr (parseTx exampleLib 1000 ''h'' ''0xf8''))) = ''21000''"
proof -
  have h1: "RLPStringToTx exampleLib ''0xf8'' = Inr exampleTx"
    by (simp add: exampleLib_def)
  have h2: "snd (Sender exampleLib exampleTx) = Some (Err ''invalid signature'')"
    by (simp add: exampleLib_def)
  have s: "fst (Sender exampleLib exampleTx) = zeroAddress"
    by (simp add: exampleLib_def)
  have g: "unat (tx_Gas exampleTx) = 21000"
    by (simp add: exampleTx_def)
  from parseTx_sender_failure [OF h1 h2, of 1000 "''h''"] h1 h2
  show ?thesis
    by (simp add: s g Address_Hex_zeroAddress nat_dec_examples)
qed

section \<open>Properties of the load\<close>

lemma parseTx_Timestamp: "parseTx lib ts h r = Inr (s, tx) \<Longrightarrow> Timestamp s = ts"
  by (auto simp: parseTx_def Let_def split: sum.splits)

lemma processLine_validLine:
  "processLine lib known l txs =
     (case validLine l of None \<Rightarrow> txs | Some occ \<Rightarrow> applyOccurrence lib known occ txs)"
  by (auto simp: processLine_def attemptLine_def validLine_def applyOccurrence_def Let_def
      split: option.splits)

lemma occurrencesIn_Nil: "occurrencesIn [] h = []"
  by (simp add: occurrencesIn_def List.map_filter_simps)

lemma occurrencesIn_Cons:
  "occurrencesIn (l # ls) h =
     (case validLine l of
        None \<Rightarrow> occurrencesIn ls h
      | Some (ts, k, rlp) \<Rightarrow> if k = h then (ts, rlp) # occurrencesIn ls h else occurrencesIn ls h)"
  by (auto simp: occurrencesIn_def List.map_filter_simps split: option.splits)

lemma applyOccurrence_other:
  "k \<noteq> h \<Longrightarrow> applyOccurrence lib known (ts, k, rlp) txs h = txs h"
  by (auto simp: applyOccurrence_def split: option.splits sum.splits)

lemma applyOccurrence_same:
  "applyOccurrence lib known (ts, h, rlp) txs h =
     (if isKnown known h then txs h
      else (case txs h of
              Some e \<Rightarrow> Some (e\<lparr>Summary := (Summary e)\<lparr>Timestamp := min ts (Timestamp (Summary e))\<rparr>\<rparr>)
            | None \<Rightarrow>
                (case parseTx lib ts h rlp of
                   Inl err \<Rightarrow> None
                 | Inr (s, tx) \<Rightarrow> Some \<lparr>Rlp = rlp, Summary = s\<rparr>)))"
  by (auto simp: applyOccurrence_def min_def split: option.splits sum.splits)

lemma fold_processLine:
  "fold (processLine lib known) ls txs h =
     (case txs h of
        Some e \<Rightarrow>
          (if isKnown known h then Some e
           else Some (e\<lparr>Summary := (Summary e)\<lparr>Timestamp :=
                  fold min (map fst (occurrencesIn ls h)) (Timestamp (Summary e))\<rparr>\<rparr>))
      | None \<Rightarrow> (if isKnown known h then None else firstDecoded lib h (occurrencesIn ls h)))"
proof (induction ls arbitrary: txs)
  case Nil
  then show ?case by (simp add: occurrencesIn_Nil split: option.splits)
next
  case (Cons l ls)
  define txs' where "txs' = processLine lib known l txs"
  have step: "fold (processLine lib known) (l # ls) txs h = fold (processLine lib known) ls txs' h"
    by (simp add: txs'_def)
  show ?case
  proof (cases "validLine l")
    case None
    then have eq: "txs' = txs"
      by (simp add: txs'_def processLine_validLine)
    have occs: "occurrencesIn (l # ls) h = occurrencesIn ls h"
      using None by (simp add: occurrencesIn_Cons)
    show ?thesis
      unfolding step Cons.IH occs eq by (rule refl)
  next
    case (Some occ)
    obtain ts k rlp where occ: "occ = (ts, k, rlp)" by (cases occ) auto
    have txs': "txs' = applyOccurrence lib known (ts, k, rlp) txs"
      using Some occ by (simp add: txs'_def processLine_validLine)
    show ?thesis
    proof (cases "k = h")
      case False
      then have eq: "txs' h = txs h"
        by (simp add: txs' applyOccurrence_other)
      have occs: "occurrencesIn (l # ls) h = occurrencesIn ls h"
        using Some occ False by (simp add: occurrencesIn_Cons)
      show ?thesis
        unfolding step Cons.IH occs eq by (rule refl)
    next
      case True
      have same: "txs' h =
        (if isKnown known h then txs h
         else (case txs h of
              Some e \<Rightarrow> Some (e\<lparr>Summary := (Summary e)\<lparr>Timestamp := min ts (Timestamp (Summary e))\<rparr>\<rparr>)
            | None \<Rightarrow>
                (case parseTx lib ts h rlp of
                   Inl err \<Rightarrow> None
                 | Inr (s, tx) \<Rightarrow> Some \<lparr>Rlp = rlp, Summary = s\<rparr>)))"
        using True by (simp add: txs' applyOccurrence_same)
      have occs: "occurrencesIn (l # ls) h = (ts, rlp) # occurrencesIn ls h"
        using Some occ True by (simp add: occurrencesIn_Cons)
      show ?thesis
        unfolding step Cons.IH occs same
        by (auto dest: parseTx_Timestamp split: option.splits sum.splits)
    qed
  qed
qed

lemma loadFiles_linesRead:
  "loadFiles lib fs known files txs = fold (processLine lib known) (linesRead fs files) txs"
  by (induction files arbitrary: txs) (auto simp: loadFileContent_def split: option.splits)

lemma LoadTransactionCSVFiles_firstDecoded:
  "LoadTransactionCSVFiles lib fs files knownFiles h =
     (if isKnown (LoadTxHashesFromMetadataCSVFiles lib fs knownFiles) h then None
      else firstDecoded lib h (occurrences fs files h))"
  by (simp add: LoadTransactionCSVFiles_def loadFiles_linesRead fold_processLine occurrences_def)

lemma firstDecoded_dropWhile:
  "firstDecoded lib h occs =
     (case dropWhile (\<lambda>(ts, rlp). isl (parseTx lib ts h rlp)) occs of
        [] \<Rightarrow> None
      | (ts0, rlp0) # later \<Rightarrow>
          Some \<lparr>Rlp = rlp0,
                Summary = (fst (projr (parseTx lib ts0 h rlp0)))\<lparr>Timestamp := Min (set (ts0 # map fst later))\<rparr>\<rparr>)"
proof (induction occs)
  case Nil
  then show ?case by simp
next
  case (Cons occ occs)
  obtain ts rlp where occ: "occ = (ts, rlp)" by (cases occ) auto
  show ?case
  proof (cases "parseTx lib ts h rlp")
    case (Inl err)
    then show ?thesis using Cons.IH occ by simp
  next
    case (Inr r)
    obtain s tx where r: "r = (s, tx)" by (cases r) auto
    have "fold min (map fst occs) ts = Min (set (ts # map fst occs))"
      by (rule Min.set_eq_fold [symmetric])
    then show ?thesis using Inr occ r by simp
  qed
qed

lemmas line_defs = lineBad_def lineGood_def exampleHash_def exampleHashUpper_def newline_def
lemmas parse_defs = validLine_def Trim_def Atoi_def digit_of_def ToLower_def lower_char_def Let_def

lemma validLine_examples:
  "validLine (lineBad ''5'') = Some (5, exampleHash, ''0x'')"
  "validLine (lineBad ''3'') = Some (3, exampleHash, ''0x'')"
  "validLine (lineGood ''10'') = Some (10, exampleHash, ''0xf8'')"
  "validLine (lineGood ''7'') = Some (7, exampleHash, ''0xf8'')"
  by (simp_all add: line_defs parse_defs)

lemma read_lines_one:
  "newline \<notin> set l \<Longrightarrow> read_lines (l @ newline # rest) = (l @ [newline]) # read_lines rest"
  by (induction l) auto

lemma read_lines_lineBad:
  "newline \<notin> set ts \<Longrightarrow> read_lines (lineBad ts @ rest) = lineBad ts # read_lines rest"
  using read_lines_one [of "ts @ '','' @ exampleHash @ '',0x''" rest]
  by (simp add: lineBad_def exampleHash_def newline_def)

lemma read_lines_lineGood:
  "newline \<notin> set ts \<Longrightarrow> read_lines (lineGood ts @ rest) = lineGood ts # read_lines rest"
  using read_lines_one [of "ts @ '','' @ exampleHash @ '',0xf8''" rest]
  by (simp add: lineGood_def exampleHash_def newline_def)

lemma read_lines_single:
  "read_lines (lineBad ''5'') = [lineBad ''5'']" "read_lines (lineGood ''10'') = [lineGood ''10'']"
  "read_lines (lineBad ''3'') = [lineBad ''3'']" "read_lines (lineGood ''7'') = [lineGood ''7'']"
  using read_lines_lineBad [of "''5''" "[]"] read_lines_lineGood [of "''10''" "[]"]
    read_lines_lineBad [of "''3''" "[]"] read_lines_lineGood [of "''7''" "[]"]
  by (simp_all add: newline_def)

lemma occurrences_examples:
  "occurrences exampleFs [''a.csv''] exampleHash = [(5, ''0x''), (10, ''0xf8'')]"
  "occurrences exampleFs [''b.csv''] exampleHash = [(10, ''0xf8''), (3, ''0x'')]"
  "occurrences exampleFs [''c.csv''] exampleHash = [(5, ''0x''), (10, ''0xf8''), (7, ''0xf8'')]"
  "occurrences exampleFs [''d.csv''] exampleHash = [(5, ''0x'')]"
  "occurrences exampleFs [''in.csv''] exampleHash = [(10, ''0xf8'')]"
  by (simp_all add: occurrences_def occurrencesIn_def exampleFs_def List.map_filter_simps
      validLine_examples read_lines_lineBad read_lines_lineGood read_lines_single newline_def)

lemma no_known: "LoadTxHashesFromMetadataCSVFiles lib fs [] = Map.empty"
  by (simp add: LoadTxHashesFromMetadataCSVFiles_def)

text \<open>
  C2. The claim: for a hash on more than one valid line, the stored entry is the first
  occurrence that decodes, with its timestamp set to the least timestamp over all
  occurrences. In \<open>a.csv\<close> the hash occurs at 5 on a valid line whose transaction does
  not decode, then at 10 on one that does: the stored timestamp is 10, not 5. In
  \<open>b.csv\<close> it occurs at 10 decoding, then at 3 not decoding: the stored timestamp is 3.
  So the least timestamp is taken neither over all valid lines nor over the decoded ones.
\<close>

theorem load_duplicates_counterexample:
  "occurrences exampleFs [''a.csv''] exampleHash = [(5, ''0x''), (10, ''0xf8'')] \<and>
   LoadTransactionCSVFiles exampleLib exampleFs [''a.csv''] [] exampleHash =
     Some \<lparr>Rlp = ''0xf8'', Summary = exampleSummary 10\<rparr> \<and>
   occurrences exampleFs [''b.csv''] exampleHash = [(10, ''0xf8''), (3, ''0x'')] \<and>
   LoadTransactionCSVFiles exampleLib exampleFs [''b.csv''] [] exampleHash =
     Some \<lparr>Rlp = ''0xf8'', Summary = exampleSummary 3\<rparr>"
  by (simp add: LoadTransactionCSVFiles_firstDecoded occurrences_examples no_known isKnown_def
      parseTx_exampleLib parseTx_exampleLib_empty exampleSummary_def)

text \<open>
  C2, as the code has it. The returned map holds at most one entry per lower-cased hash.
  For a hash that is not known already: drop its occurrences up to the first that
  decodes; the stored entry is that occurrence (raw transaction and decoded fields),
  with only its timestamp replaced by the least timestamp among it and all the valid
  lines with the hash read after it, whether they decode or not. Occurrences before it
  do not count. A hash that is known, or has no occurrence that decodes, has no entry.
  The occurrences are those on the lines read: every file before the first that fails
  to open.
\<close>

theorem load_keeps_first_decoded:
  "(\<not> isKnown (LoadTxHashesFromMetadataCSVFiles lib fs knownFiles) h \<and>
    dropWhile (\<lambda>(ts, rlp). isl (parseTx lib ts h rlp)) (occurrences fs files h) = (ts0, rlp0) # later \<and>
    parseTx lib ts0 h rlp0 = Inr (s0, tx0) \<longrightarrow>
    LoadTransactionCSVFiles lib fs files knownFiles h =
      Some \<lparr>Rlp = rlp0, Summary = s0\<lparr>Timestamp := Min (set (ts0 # map fst later))\<rparr>\<rparr>) \<and>
   (isKnown (LoadTxHashesFromMetadataCSVFiles lib fs knownFiles) h \<or>
    dropWhile (\<lambda>(ts, rlp). isl (parseTx lib ts h rlp)) (occurrences fs files h) = [] \<longrightarrow>
    LoadTransactionCSVFiles lib fs files knownFiles h = None)"
proof (intro conjI impI)
  assume "\<not> isKnown (LoadTxHashesFromMetadataCSVFiles lib fs knownFiles) h \<and>
    dropWhile (\<lambda>(ts, rlp). isl (parseTx lib ts h rlp)) (occurrences fs files h) = (ts0, rlp0) # later \<and>
    parseTx lib ts0 h rlp0 = Inr (s0, tx0)"
  then show "LoadTransactionCSVFiles lib fs files knownFiles h =
      Some \<lparr>Rlp = rlp0, Summary = s0\<lparr>Timestamp := Min (set (ts0 # map fst later))\<rparr>\<rparr>"
    by (simp add: LoadTransactionCSVFiles_firstDecoded firstDecoded_dropWhile)
next
  assume "isKnown (LoadTxHashesFromMetadataCSVFiles lib fs knownFiles) h \<or>
    dropWhile (\<lambda>(ts, rlp). isl (parseTx lib ts h rlp)) (occurrences fs files h) = []"
  then show "LoadTransactionCSVFiles lib fs files knownFiles h = None"
  proof
    assume "isKnown (LoadTxHashesFromMetadataCSVFiles lib fs knownFiles) h"
    then show ?thesis by (simp add: LoadTransactionCSVFiles_firstDecoded)
  next
    assume d: "dropWhile (\<lambda>(ts, rlp). isl (parseTx lib ts h rlp)) (occurrences fs files h) = []"
    show ?thesis
      unfolding LoadTransactionCSVFiles_firstDecoded firstDecoded_dropWhile d by simp
  qed
qed

theorem load_keeps_first_decoded_witness:
  "\<not> isKnown (LoadTxHashesFromMetadataCSVFiles exampleLib exampleFs []) exampleHash \<and>
   dropWhile (\<lambda>(ts, rlp). isl (parseTx exampleLib ts exampleHash rlp))
     (occurrences exampleFs [''c.csv''] exampleHash) = (10, ''0xf8'') # [(7, ''0xf8'')] \<and>
   parseTx exampleLib 10 exampleHash ''0xf8'' = Inr (exampleSummary 10, exampleTx) \<and>
   LoadTransactionCSVFiles exampleLib exampleFs [''c.csv''] [] exampleHash =
     Some \<lparr>Rlp = ''0xf8'', Summary = exampleSummary 7\<rparr> \<and>
   dropWhile (\<lambda>(ts, rlp). isl (parseTx exampleLib ts exampleHash rlp))
     (occurrences exampleFs [''d.csv''] exampleHash) = [] \<and>
   LoadTransactionCSVFiles exampleLib exampleFs [''d.csv''] [] exampleHash = None"
proof -
  have k: "\<not> isKnown (LoadTxHashesFromMetadataCSVFiles exampleLib exampleFs []) exampleHash"
    by (simp add: no_known isKnown_def)
  have d: "dropWhile (\<lambda>(ts, rlp). isl (parseTx exampleLib ts exampleHash rlp))
     (occurrences exampleFs [''c.csv''] exampleHash) = (10, ''0xf8'') # [(7, ''0xf8'')]"
    by (simp add: occurrences_examples parseTx_exampleLib parseTx_exampleLib_empty)
  have p: "parseTx exampleLib 10 exampleHash ''0xf8'' = Inr (exampleSummary 10, exampleTx)"
    by (simp add: parseTx_exampleLib)
  have e: "dropWhile (\<lambda>(ts, rlp). isl (parseTx exampleLib ts exampleHash rlp))
     (occurrences exampleFs [''d.csv''] exampleHash) = []"
    by (simp add: occurrences_examples parseTx_exampleLib_empty)
  have m: "(exampleSummary 10)\<lparr>Timestamp := Min (set (10 # map fst [(7, ''0xf8'')]))\<rparr> = exampleSummary 7"
    by (simp add: exampleSummary_def)
  from load_keeps_first_decoded [of exampleLib exampleFs "[]" exampleHash "[''c.csv'']" 10 "''0xf8''"
      "[(7, ''0xf8'')]" "exampleSummary 10" exampleTx, THEN conjunct1, rule_format, OF conjI [OF k conjI [OF d p]]]
    load_keeps_first_decoded [of exampleLib exampleFs "[]" exampleHash "[''d.csv'']", THEN conjunct2, rule_format, OF disjI2 [OF e]]
    k d p e m
  show ?thesis by simp
qed

lemma fold_filter_skip:
  "fold (\<lambda>l txs. if P l then txs else f l txs) ls txs = fold f (filter (\<lambda>l. \<not> P l) ls) txs"
  by (induction ls arbitrary: txs) auto

lemma read_lines_rest:
  "newline \<notin> set rest \<Longrightarrow> read_lines rest = (if rest = [] then [] else [rest])"
  by (induction rest) auto

lemma read_lines_fileOf:
  assumes "\<forall>t \<in> set texts. newline \<notin> set t" and "newline \<notin> set rest"
  shows "read_lines (fileOf texts rest) =
           map (\<lambda>t. t @ [newline]) texts @ (if rest = [] then [] else [rest])"
  using assms(1)
proof (induction texts)
  case Nil
  show ?case using read_lines_rest [OF assms(2)] by (simp add: fileOf_def)
next
  case (Cons t texts)
  then have "read_lines (t @ newline # fileOf texts rest) =
      (t @ [newline]) # read_lines (fileOf texts rest)"
    by (simp add: read_lines_one)
  with Cons show ?case by (simp add: fileOf_def)
qed

lemma text_lengths:
  "length text64 = 64" "length text65 = 65" "length text66 = 66"
  "newline \<notin> set text64" "newline \<notin> set text65" "newline \<notin> set text66"
  by (simp_all add: text64_def text65_def text66_def hash54_def newline_def)

lemma attemptLine_text65:
  "attemptLine exampleLib Map.empty (text65 @ [newline]) Map.empty =
     [hash54 @ ''e'' \<mapsto> \<lparr>Rlp = ''0xf8'', Summary = exampleSummary 1000\<rparr>]"
  by (simp add: attemptLine_def text65_def hash54_def Trim_def newline_def Atoi_def
      digit_of_def ToLower_def lower_char_def Let_def isKnown_def parseTx_exampleLib)

lemma attemptLine_text66:
  "attemptLine exampleLib Map.empty text66 Map.empty =
     [hash54 @ ''ee'' \<mapsto> \<lparr>Rlp = ''0xf8'', Summary = exampleSummary 1000\<rparr>]"
  by (simp add: attemptLine_def text66_def hash54_def Trim_def newline_def Atoi_def
      digit_of_def ToLower_def lower_char_def Let_def isKnown_def parseTx_exampleLib)

text \<open>
  C7. The claim: a line of exactly 65 bytes is skipped. The file \<open>f.csv\<close> holds one line,
  65 bytes of text and the newline that ends it. The length test counts the newline, so
  the line counts 66 bytes, is attempted, and its transaction is stored.
\<close>

theorem line_of_65_bytes_counterexample:
  "length text65 = 65 \<and> newline \<notin> set text65 \<and>
   oneLineFs ''f.csv'' = Some (text65 @ [newline]) \<and>
   LoadTransactionCSVFiles exampleLib oneLineFs [''f.csv''] [] (hash54 @ ''e'') =
     Some \<lparr>Rlp = ''0xf8'', Summary = exampleSummary 1000\<rparr>"
proof -
  have "read_lines (text65 @ [newline]) = [text65 @ [newline]]"
    using read_lines_one [of text65 "[]"] by (simp add: text_lengths)
  then show ?thesis
    by (simp add: LoadTransactionCSVFiles_def no_known loadFileContent_def processLine_def
        text_lengths attemptLine_text65 oneLineFs_def)
qed

text \<open>
  C7, as the code has it. The length that is tested is that of the line as it is read,
  with the newline that ends it. So of the lines of a file that end with a newline,
  those with fewer than 65 bytes of text are skipped without being parsed and those
  with 65 bytes of text or more are attempted, in their order; a last line without a
  newline is skipped with fewer than 66 bytes and attempted with 66 or more.
\<close>

theorem lines_skipped_by_length_read:
  assumes "\<forall>t \<in> set texts. newline \<notin> set t" and "newline \<notin> set rest"
  shows "loadFileContent lib known (fileOf texts rest) txs =
           fold (attemptLine lib known)
             (map (\<lambda>t. t @ [newline]) (filter (\<lambda>t. 65 \<le> length t) texts) @
              (if 66 \<le> length rest then [rest] else [])) txs"
proof -
  have "processLine lib known = (\<lambda>l txs. if length l < 66 then txs else attemptLine lib known l txs)"
    by (intro ext) (simp add: processLine_def)
  then have "loadFileContent lib known (fileOf texts rest) txs =
     fold (attemptLine lib known) (filter (\<lambda>l. \<not> length l < 66) (read_lines (fileOf texts rest))) txs"
    by (simp add: loadFileContent_def fold_filter_skip)
  moreover have "filter (\<lambda>l. \<not> length l < 66) (map (\<lambda>t. t @ [newline]) texts) =
      map (\<lambda>t. t @ [newline]) (filter (\<lambda>t. 65 \<le> length t) texts)"
    by (induction texts) auto
  ultimately show ?thesis
    by (simp add: read_lines_fileOf [OF assms] not_less)
qed

theorem lines_skipped_by_length_read_witness:
  "newline \<notin> set text64 \<and> newline \<notin> set text65 \<and> newline \<notin> set text66 \<and>
   length text64 = 64 \<and> length text65 = 65 \<and> length text66 = 66 \<and>
   loadFileContent exampleLib Map.empty (fileOf [text64, text65] text65) Map.empty =
     [hash54 @ ''e'' \<mapsto> \<lparr>Rlp = ''0xf8'', Summary = exampleSummary 1000\<rparr>] \<and>
   loadFileContent exampleLib Map.empty (fileOf [text64] text66) Map.empty =
     [hash54 @ ''ee'' \<mapsto> \<lparr>Rlp = ''0xf8'', Summary = exampleSummary 1000\<rparr>]"
proof -
  have a: "\<forall>t \<in> set [text64, text65]. newline \<notin> set t" by (simp add: text_lengths)
  have b: "\<forall>t \<in> set [text64]. newline \<notin> set t" by (simp add: text_lengths)
  from lines_skipped_by_length_read [OF a text_lengths(5), of exampleLib Map.empty Map.empty]
    lines_skipped_by_length_read [OF b text_lengths(6), of exampleLib Map.empty Map.empty]
  show ?thesis
    by (simp add: text_lengths attemptLine_text65 attemptLine_text66)
qed

lemma addKnownRecord_keeps: "txs k = Some True \<Longrightarrow> addKnownRecord record txs k = Some True"
  by (simp add: addKnownRecord_def)

lemma fold_addKnownRecord_keeps:
  "txs k = Some True \<Longrightarrow> fold addKnownRecord records txs k = Some True"
  by (induction records arbitrary: txs) (auto simp: addKnownRecord_keeps)

lemma fold_addKnownRecord_adds:
  "record \<in> set records \<Longrightarrow> 2 \<le> length record \<Longrightarrow>
   fold addKnownRecord records txs (ToLower (record ! 1)) = Some True"
proof (induction records arbitrary: txs)
  case Nil
  then show ?case by simp
next
  case (Cons r records)
  show ?case
  proof (cases "r = record")
    case True
    then have "addKnownRecord r txs (ToLower (record ! 1)) = Some True"
      using Cons.prems(2) by (simp add: addKnownRecord_def)
    then show ?thesis
      by (simp add: fold_addKnownRecord_keeps)
  next
    case False
    then show ?thesis using Cons by simp
  qed
qed

lemma loadKnownFiles_keeps:
  "txs k = Some True \<Longrightarrow> loadKnownFiles lib fs files txs k = Some True"
  by (induction files arbitrary: txs)
     (auto simp: fold_addKnownRecord_keeps split: option.splits sum.splits)

lemma loadKnownFiles_adds:
  assumes "\<forall>f \<in> set files. \<exists>content records. fs f = Some content \<and> csv_ReadAll lib content = Inr records"
    and "filename \<in> set files" and "fs filename = Some content"
    and "csv_ReadAll lib content = Inr records"
    and "record \<in> set records" and "2 \<le> length record"
  shows "loadKnownFiles lib fs files txs (ToLower (record ! 1)) = Some True"
  using assms(1,2)
proof (induction files arbitrary: txs)
  case Nil
  then show ?case by simp
next
  case (Cons f files)
  obtain c rs where f: "fs f = Some c" "csv_ReadAll lib c = Inr rs"
    using Cons.prems(1) by auto
  show ?case
  proof (cases "f = filename")
    case True
    then have rs: "rs = records" using f assms(3,4) by simp
    have "fold addKnownRecord rs txs (ToLower (record ! 1)) = Some True"
      unfolding rs by (rule fold_addKnownRecord_adds [OF assms(5,6)])
    then show ?thesis
      using f by (simp add: loadKnownFiles_keeps)
  next
    case False
    then have "filename \<in> set files" using Cons.prems(2) by simp
    then show ?thesis
      using Cons.IH Cons.prems(1) f by simp
  qed
qed

text \<open>
  When every known file opens and reads as CSV, a hash in column 1 of any of them is
  never loaded.
\<close>

lemma known_hash_dropped_when_all_files_read:
  assumes "\<forall>f \<in> set knownFiles. \<exists>content records. fs f = Some content \<and> csv_ReadAll lib content = Inr records"
    and "filename \<in> set knownFiles" and "fs filename = Some content"
    and "csv_ReadAll lib content = Inr records"
    and "record \<in> set records" and "2 \<le> length record"
  shows "LoadTransactionCSVFiles lib fs files knownFiles (ToLower (record ! 1)) = None"
proof -
  have "LoadTxHashesFromMetadataCSVFiles lib fs knownFiles (ToLower (record ! 1)) = Some True"
    unfolding LoadTxHashesFromMetadataCSVFiles_def by (rule loadKnownFiles_adds [OF assms])
  then show ?thesis
    by (simp add: LoadTransactionCSVFiles_firstDecoded isKnown_def)
qed

lemma known_example:
  "LoadTxHashesFromMetadataCSVFiles exampleLib exampleFs [''known.csv''] exampleHash = Some True"
  by (simp add: LoadTxHashesFromMetadataCSVFiles_def exampleFs_def exampleLib_def addKnownRecord_def
      exampleHashUpper_def exampleHash_def newline_def Trim_def ToLower_def lower_char_def)

lemma known_missing_example:
  "LoadTxHashesFromMetadataCSVFiles exampleLib exampleFs [''missing.csv'', ''known.csv''] = Map.empty"
  by (simp add: LoadTxHashesFromMetadataCSVFiles_def exampleFs_def)

text \<open>
  C3. The hash is in column 1 of \<open>known.csv\<close>, in upper case. Given \<open>known.csv\<close> alone
  as the list of known files, the load drops the hash. Given \<open>missing.csv\<close>, which
  cannot be opened, before \<open>known.csv\<close>, the list of known hashes ends at the failed
  open, \<open>known.csv\<close> is never read and the hash is loaded.
\<close>

theorem blacklist_lost_after_unopened_file:
  "exampleFs ''missing.csv'' = None \<and>
   LoadTxHashesFromMetadataCSVFiles exampleLib exampleFs [''known.csv''] exampleHash = Some True \<and>
   LoadTransactionCSVFiles exampleLib exampleFs [''in.csv''] [''known.csv''] exampleHash = None \<and>
   LoadTransactionCSVFiles exampleLib exampleFs [''in.csv''] [''missing.csv'', ''known.csv'']
     exampleHash = Some \<lparr>Rlp = ''0xf8'', Summary = exampleSummary 10\<rparr>"
  by (simp add: LoadTransactionCSVFiles_firstDecoded known_example known_missing_example isKnown_def
      occurrences_examples parseTx_exampleLib exampleSummary_def) (simp add: exampleFs_def)

section \<open>Properties of the merge command\<close>

text \<open>A run that finishes has written the sorted, enriched entries of the load.\<close>

lemma mergeTransactions_Finished:
  "mergeTransactions env opts = Finished fnParquet fnMeta fnTxs out \<Longrightarrow>
   out = sortAndWrite (writeTxCSV opts)
           (enrichedSlice env opts
              (LoadTransactionCSVFiles (envLib env) (fsys env) (inputFiles opts) (knownTxsFiles opts)))"
  by (auto simp: mergeTransactions_def Let_def split: if_splits option.splits prod.splits)

text \<open>
  C10. With \<open>p\<close>, \<open>m\<close> and \<open>t\<close> the names of the parquet file, the metadata CSV and the
  transactions CSV: a run with input files and an output directory ends fatally, naming
  the first of the three that exists, whenever one of them exists, whatever the input
  files, the known files and \<open>write-tx-csv\<close> are; and a run that finishes has found none
  of the three, the transactions CSV included also when it does not write it. So no
  existing file is written over.
\<close>

theorem existing_output_aborts:
  assumes "outputNames (filepath_Join env) (outDir opts) (fnPrefix opts) = (p, m, t)"
  shows "(inputFiles opts \<noteq> [] \<and> MkdirAll env (outDir opts) \<and>
          (fsys env p \<noteq> None \<or> fsys env m \<noteq> None \<or> fsys env t \<noteq> None) \<longrightarrow>
          mergeTransactions env opts =
            Fatal (OutputExists (if fsys env p \<noteq> None then p
                                 else if fsys env m \<noteq> None then m else t))) \<and>
         (\<forall>fnParquet fnMeta fnTxs out.
            mergeTransactions env opts = Finished fnParquet fnMeta fnTxs out \<longrightarrow>
            fnParquet = p \<and> fnMeta = m \<and> (fnTxs = None \<or> fnTxs = Some t) \<and>
            fsys env p = None \<and> fsys env m = None \<and> fsys env t = None)"
proof (intro conjI impI allI)
  assume "inputFiles opts \<noteq> [] \<and> MkdirAll env (outDir opts) \<and>
          (fsys env p \<noteq> None \<or> fsys env m \<noteq> None \<or> fsys env t \<noteq> None)"
  then show "mergeTransactions env opts =
      Fatal (OutputExists (if fsys env p \<noteq> None then p else if fsys env m \<noteq> None then m else t))"
    using assms by (auto simp: mergeTransactions_def MustNotExist_def)
next
  fix fnParquet fnMeta fnTxs out
  assume "mergeTransactions env opts = Finished fnParquet fnMeta fnTxs out"
  then have "fnParquet = p \<and> fnMeta = m \<and> (fnTxs = None \<or> fnTxs = Some t) \<and>
      fsys env p = None \<and> fsys env m = None \<and> fsys env t = None"
    using assms
    by (auto simp: mergeTransactions_def MustNotExist_def Let_def split: if_splits option.splits)
  then show "fnParquet = p" and "fnMeta = m" and "fnTxs = None \<or> fnTxs = Some t"
    and "fsys env p = None" and "fsys env m = None" and "fsys env t = None"
    by simp_all
qed

lemma exampleNames:
  "outputNames (filepath_Join (exampleEnv\<lparr>fsys := f\<rparr>)) (outDir (exampleOpts i k)) (fnPrefix (exampleOpts i k)) =
     (''out/transactions.parquet'', ''out/metadata.csv'', ''out/transactions.csv'')"
  by (simp add: outputNames_def exampleEnv_def exampleOpts_def)

lemma exampleFs_outputs:
  "exampleFs ''out/transactions.parquet'' = None" "exampleFs ''out/metadata.csv'' = None"
  "exampleFs ''out/transactions.csv'' = None" "exampleFs ''missing.csv'' = None"
  "exampleFs ''in.csv'' \<noteq> None"
  by (simp_all add: exampleFs_def)

lemma known_unopened:
  "fs f = None \<Longrightarrow> LoadTxHashesFromMetadataCSVFiles l fs (f # rest) = Map.empty"
  by (simp add: LoadTxHashesFromMetadataCSVFiles_def)

lemma load_example:
  "LoadTransactionCSVFiles exampleLib exampleFs [''in.csv''] [''missing.csv''] exampleHash =
     Some \<lparr>Rlp = ''0xf8'', Summary = exampleSummary 10\<rparr>"
  by (simp add: LoadTransactionCSVFiles_firstDecoded known_unopened exampleFs_outputs
      isKnown_def occurrences_examples parseTx_exampleLib exampleSummary_def)

lemma merge_example:
  "mergeTransactions exampleEnv (exampleOpts [''in.csv''] [''missing.csv'']) =
     Finished ''out/transactions.parquet'' ''out/metadata.csv'' None
       (sortAndWrite False [toMergedEntry \<lparr>Rlp = ''0xf8'', Summary = exampleSummary 10\<rparr>])"
  using exampleNames [of exampleFs "[''in.csv'']" "[''missing.csv'']"]
  apply (simp add: mergeTransactions_def Let_def MustNotExist_def MustBeFile_def)
  apply (simp add: exampleEnv_def exampleOpts_def exampleFs_outputs enrichedSlice_def
      List.map_filter_simps load_example sourcesOf_def sort_Slice_def toMergedEntry_def)
  done

lemma merge_example_rows:
  "map Hash (parquetRows (sortAndWrite False [toMergedEntry \<lparr>Rlp = ''0xf8'', Summary = exampleSummary 10\<rparr>]))
     = [exampleHash]"
  by (simp add: parquetRows_sortAndWrite sortTxs_def sort_Slice_def toMergedEntry_def exampleSummary_def exampleHash_def)

lemma merge_example_missing_input:
  "mergeTransactions exampleEnv (exampleOpts [''missing.csv''] []) = Fatal (NotAFile ''missing.csv'')"
  using exampleNames [of exampleFs "[''missing.csv'']" "[]"]
  apply (simp add: mergeTransactions_def Let_def MustNotExist_def MustBeFile_def)
  apply (simp add: exampleEnv_def exampleOpts_def exampleFs_outputs)
  done

theorem existing_output_aborts_witness:
  "writeTxCSV (exampleOpts [''in.csv''] []) = False \<and>
   mergeTransactions (exampleEnv\<lparr>fsys := exampleFs(''out/transactions.csv'' \<mapsto> ''old'')\<rparr>)
     (exampleOpts [''in.csv''] []) = Fatal (OutputExists ''out/transactions.csv'') \<and>
   mergeTransactions exampleEnv (exampleOpts [''in.csv''] [''missing.csv'']) =
     Finished ''out/transactions.parquet'' ''out/metadata.csv'' None
       (sortAndWrite False [toMergedEntry \<lparr>Rlp = ''0xf8'', Summary = exampleSummary 10\<rparr>]) \<and>
   fsys exampleEnv ''out/transactions.parquet'' = None \<and>
   fsys exampleEnv ''out/metadata.csv'' = None \<and>
   fsys exampleEnv ''out/transactions.csv'' = None"
proof -
  let ?env = "exampleEnv\<lparr>fsys := exampleFs(''out/transactions.csv'' \<mapsto> ''old'')\<rparr>"
  let ?opts = "exampleOpts [''in.csv''] []"
  have h: "inputFiles ?opts \<noteq> [] \<and> MkdirAll ?env (outDir ?opts) \<and>
     (fsys ?env ''out/transactions.parquet'' \<noteq> None \<or> fsys ?env ''out/metadata.csv'' \<noteq> None \<or>
      fsys ?env ''out/transactions.csv'' \<noteq> None)"
    by (simp add: exampleOpts_def exampleEnv_def)
  have a: "mergeTransactions ?env ?opts = Fatal (OutputExists ''out/transactions.csv'')"
    using existing_output_aborts [OF exampleNames [of "exampleFs(''out/transactions.csv'' \<mapsto> ''old'')"
        "[''in.csv'']" "[]"], THEN conjunct1, rule_format, OF h]
    by (simp add: exampleFs_outputs)
  have e: "exampleEnv\<lparr>fsys := exampleFs\<rparr> = exampleEnv"
    by (simp add: exampleEnv_def)
  have b: "fsys exampleEnv ''out/transactions.parquet'' = None \<and>
     fsys exampleEnv ''out/metadata.csv'' = None \<and> fsys exampleEnv ''out/transactions.csv'' = None"
    using existing_output_aborts [OF exampleNames [of exampleFs "[''in.csv'']" "[''missing.csv'']"],
        THEN conjunct2, rule_format, unfolded e, OF merge_example]
    by simp
  show ?thesis
    using a b merge_example by (simp add: exampleOpts_def)
qed

text \<open>
  C9. The claim: a known file that is missing makes the run fatal, before any output.
  \<open>missing.csv\<close> cannot be opened. Given as the only known file, the run finishes and
  writes the row of \<open>in.csv\<close>; given as an input file, the run is fatal.
\<close>

theorem merge_finishes_without_known_file:
  "fsys exampleEnv ''missing.csv'' = None \<and>
   mergeTransactions exampleEnv (exampleOpts [''in.csv''] [''missing.csv'']) =
     Finished ''out/transactions.parquet'' ''out/metadata.csv'' None
       (sortAndWrite False [toMergedEntry \<lparr>Rlp = ''0xf8'', Summary = exampleSummary 10\<rparr>]) \<and>
   map Hash (parquetRows (sortAndWrite False
       [toMergedEntry \<lparr>Rlp = ''0xf8'', Summary = exampleSummary 10\<rparr>])) = [exampleHash] \<and>
   mergeTransactions exampleEnv (exampleOpts [''missing.csv''] []) = Fatal (NotAFile ''missing.csv'')"
  using merge_example merge_example_rows merge_example_missing_input
  by (simp add: exampleEnv_def exampleFs_outputs)

section \<open>Properties of the latency comparison\<close>

subsection \<open>Which values a histogram takes\<close>

lemma Len_le_iff: "Len n \<le> k \<longleftrightarrow> n < 2 ^ k"
proof (induction n arbitrary: k rule: Len.induct)
  case 1
  then show ?case by simp
next
  case (2 n)
  show ?case
  proof (cases k)
    case 0
    then show ?thesis by simp
  next
    case (Suc j)
    have "Len (Suc n) \<le> Suc j \<longleftrightarrow> Len (Suc n div 2) \<le> j"
      by simp
    also have "\<dots> \<longleftrightarrow> Suc n div 2 < 2 ^ j" by (rule 2)
    also have "\<dots> \<longleftrightarrow> Suc n < 2 ^ Suc j" by auto
    finally show ?thesis using Suc by simp
  qed
qed

lemma int32_id: "- (2 ^ 31) \<le> x \<Longrightarrow> x < 2 ^ 31 \<Longrightarrow> int32 x = x"
  unfolding int32_def by (rule signed_take_bit_int_eq_self) simp_all

lemma pow_gt_2047: "(2047 :: nat) < 2 ^ k \<Longrightarrow> 11 \<le> k"
proof (rule ccontr)
  assume a: "(2047 :: nat) < 2 ^ k" and "\<not> 11 \<le> k"
  then have "k \<le> 10" by simp
  then have "(2 :: nat) ^ k \<le> 2 ^ 10" by (intro power_increasing) simp_all
  with a show False by simp
qed

lemma unat_or_2047:
  fixes v :: int64
  shows "unat (v OR 2047) = unat v OR 2047"
  by (simp add: unsigned_or_eq)

lemma nat_or_bounds:
  fixes a :: nat
  shows "a \<le> a OR 2047" "2047 \<le> a OR 2047" "11 \<le> k \<Longrightarrow> a < 2 ^ k \<Longrightarrow> a OR 2047 < 2 ^ k"
proof -
  have i: "int (a OR 2047) = int a OR 2047" by (simp add: of_nat_or_eq)
  have "int a \<le> int a OR 2047" by (rule or_greater_eq) simp
  then show "a \<le> a OR 2047" using i by linarith
  have "(2047 :: int) \<le> 2047 OR int a" by (rule or_greater_eq) simp
  then show "2047 \<le> a OR 2047" using i by (simp add: or.commute)
  assume k: "11 \<le> k" and a: "a < 2 ^ k"
  have "(2 :: int) ^ 11 \<le> 2 ^ k" using k by (intro power_increasing) simp_all
  then have m: "(2047 :: int) < 2 ^ k" by simp
  have "int a < 2 ^ k" using a by (metis of_nat_less_iff of_nat_numeral of_nat_power)
  then have "int a OR 2047 < 2 ^ k" using m by (intro OR_upper) simp_all
  then show "a OR 2047 < 2 ^ k" using i by (metis of_nat_less_iff of_nat_numeral of_nat_power)
qed

lemma or_2047_less_iff:
  fixes a :: nat
  shows "a OR 2047 < 2 ^ k \<longleftrightarrow> 11 \<le> k \<and> a < 2 ^ k"
  using nat_or_bounds(1,2) [of a] nat_or_bounds(3) [of k a] pow_gt_2047 [of k]
  by (meson le_less_trans)

lemma Len_or_2047: "Len (a OR 2047) = max 11 (Len a)"
proof -
  have "Len (a OR 2047) \<le> k \<longleftrightarrow> max 11 (Len a) \<le> k" for k
    by (simp add: Len_le_iff or_2047_less_iff)
  then show ?thesis by (meson order_antisym order_refl)
qed

lemma Len_unat_le: "Len (unat (x :: int64)) \<le> 64"
  using unsigned_less [of x] by (simp add: Len_le_iff)

lemma bucketOf_le: "bucketOf v \<le> 53"
  using Len_unat_le [of v] by (simp add: bucketOf_def)

lemma getBucketIndex_New: "getBucketIndex New v = int (bucketOf v)"
proof -
  have l: "Len (unat (v OR 2047)) = max 11 (Len (unat v))"
    by (simp add: unat_or_2047 Len_or_2047)
  have "64 - int (LeadingZeros64 (v OR 2047)) = int (max 11 (Len (unat v)))"
    using Len_unat_le [of v] by (simp add: LeadingZeros64_def l)
  moreover have "int32 (int (max 11 (Len (unat v))) - 11) = int (max 11 (Len (unat v))) - 11"
    using Len_unat_le [of v] by (intro int32_id) auto
  ultimately show ?thesis
    by (simp add: getBucketIndex_def New_def Let_def bucketOf_def)
qed

lemma uint_of_sint:
  fixes v :: int64
  shows "0 \<le> sint v \<Longrightarrow> uint v = sint v" "sint v < 0 \<Longrightarrow> uint v = sint v + 2 ^ 64"
proof -
  have u: "uint v = sint v mod 2 ^ 64"
    using uint_sint [of v] by (simp add: take_bit_eq_mod)
  have lo: "- (2 ^ 63) \<le> sint v" using sint_greater_eq [of v] by simp
  have hi: "sint v < 2 ^ 63" using sint_less [of v] by simp
  show "0 \<le> sint v \<Longrightarrow> uint v = sint v"
    using u hi by simp
  assume neg: "sint v < 0"
  have "(sint v + 2 ^ 64) mod 2 ^ 64 = sint v + 2 ^ 64"
    using lo neg by (intro mod_pos_pos_trivial) simp_all
  then show "uint v = sint v + 2 ^ 64"
    using u by simp
qed

lemma unat_less_iff_sint:
  fixes v :: int64
  assumes "0 \<le> sint v"
  shows "unat v < n \<longleftrightarrow> sint v < int n"
proof -
  have "unat v = nat (sint v)"
    using uint_of_sint(1) [OF assms] by (simp add: unat_eq_nat_uint)
  then show ?thesis using assms by (simp add: nat_less_iff)
qed

lemma bucketOf_negative:
  assumes "sint v < 0"
  shows "bucketOf v = 53"
proof -
  have lo: "- (2 ^ 63) \<le> sint v" using sint_greater_eq [of v] by simp
  have "int (unat v) = sint v + 2 ^ 64"
    using uint_of_sint(2) [OF assms] by simp
  then have "(2 :: int) ^ 63 \<le> int (unat v)" using lo by simp
  then have "\<not> unat v < 2 ^ 63"
    by (metis not_less of_nat_le_iff of_nat_numeral of_nat_power)
  then have "\<not> Len (unat v) \<le> 63" by (simp add: Len_le_iff)
  then show ?thesis
    using Len_unat_le [of v] by (simp add: bucketOf_def)
qed

lemma sub_bounds:
  "- 1024 \<le> sint (v :: int64) div 2 ^ bucketOf v \<and> sint v div 2 ^ bucketOf v < 2048"
proof (cases "0 \<le> sint v")
  case True
  then have s: "sint v = int (unat v)"
    using uint_of_sint(1) [of v] by simp
  have e: "max 11 (Len (unat v)) = bucketOf v + 11"
    by (simp add: bucketOf_def)
  have "Len (unat v) \<le> bucketOf v + 11"
    unfolding e [symmetric] by simp
  then have "unat v < 2 ^ (bucketOf v + 11)"
    by (simp only: Len_le_iff)
  then have "unat v < 2 ^ 11 * 2 ^ bucketOf v"
    by (simp only: power_add mult.commute)
  then have "unat v div 2 ^ bucketOf v < 2 ^ 11"
    by (rule less_mult_imp_div_less)
  then have "int (unat v div 2 ^ bucketOf v) < 2048"
    by simp
  then have "int (unat v) div 2 ^ bucketOf v < 2048"
    by (simp add: zdiv_int)
  moreover have "0 \<le> int (unat v) div 2 ^ bucketOf v"
    by (simp add: pos_imp_zdiv_nonneg_iff)
  ultimately show ?thesis using s by simp
next
  case False
  then have neg: "sint v < 0" by simp
  have lo: "- (2 ^ 63) \<le> sint v" using sint_greater_eq [of v] by simp
  have "- 1024 \<le> sint v div 2 ^ 53" using lo by simp
  moreover have "sint v div 2 ^ 53 < 0" using neg by (simp add: div_neg_pos_less0)
  ultimately show ?thesis using bucketOf_negative [OF neg] by simp
qed

lemma countsLen_New: "countsLen New = 14336"
  by (simp add: New_def)

text \<open>
  The fields of \<open>New\<close> fit together the way the constructor computes them: 2048 is the
  least power of two from \<open>2 * 10^3\<close> on, twelve doublings of 2048 are the fewest that
  reach 5000000, and there is one counter for each index below \<open>countsLen\<close>.
\<close>

lemma New_geometry:
  "subBucketCount New = 2 ^ nat (subBucketHalfCountMagnitude New + 1)"
  "subBucketCount New div 2 < 2 * 10 ^ nat (significantFigures New)"
  "2 * 10 ^ nat (significantFigures New) \<le> subBucketCount New"
  "subBucketHalfCount New = subBucketCount New div 2"
  "uint (subBucketMask New) = subBucketCount New - 1"
  "subBucketCount New * 2 ^ 11 < sint (highestTrackableValue New)"
  "sint (highestTrackableValue New) \<le> subBucketCount New * 2 ^ 12"
  "bucketCount New = 12 + 1"
  "countsLen New = (bucketCount New + 1) * (subBucketCount New div 2)"
  "int (length (counts New)) = countsLen New"
  by (simp_all add: New_def)

text \<open>
  The index of a value in a histogram built by \<open>New\<close>: 1024 counters for every bucket,
  and within the bucket the value shifted right by the number of the bucket. None of
  the conversions to \<open>int32\<close> on the way changes a number.
\<close>

lemma countsIndexFor_New:
  "countsIndexFor New v = int (bucketOf v) * 1024 + sint v div 2 ^ bucketOf v"
proof -
  let ?K = "bucketOf v" and ?s = "sint v div 2 ^ bucketOf v"
  have k: "int ?K \<le> 53" using bucketOf_le [of v] by simp
  have sub: "getSubBucketIdx New v (int ?K) = ?s"
    using sub_bounds [of v]
    by (simp add: getSubBucketIdx_def New_def shift_count_def sint_signed_drop_bit_eq
        drop_bit_eq_div int32_id)
  have i1: "int32 (int ?K + 1) = int ?K + 1"
    using k by (intro int32_id) simp_all
  have i2: "int32 (push_bit 10 (int ?K + 1)) = (int ?K + 1) * 1024"
    using k by (simp add: push_bit_eq_mult int32_id)
  have i3: "int32 (?s - 1024) = ?s - 1024"
    using sub_bounds [of v] by (intro int32_id) simp_all
  have i4: "int32 ((int ?K + 1) * 1024 + (?s - 1024)) = (int ?K + 1) * 1024 + (?s - 1024)"
    using k sub_bounds [of v] by (intro int32_id) simp_all
  have c: "shift_count (subBucketHalfCountMagnitude New) = 10" "subBucketHalfCount New = 1024"
    by (simp_all add: New_def shift_count_def)
  have "countsIndex New (int ?K) ?s = (int ?K + 1) * 1024 + (?s - 1024)"
    by (simp only: countsIndex_def Let_def c i1 i2 i3 i4)
  then show ?thesis
    by (simp add: countsIndexFor_def Let_def getBucketIndex_New sub algebra_simps)
qed


text \<open>
  The index is one of the 14336 counters exactly for the values from 0 up to, and
  without, \<open>2^23 = 8388608\<close>.
\<close>

lemma recordable_iff:
  "0 \<le> countsIndexFor New v \<and> countsIndexFor New v < countsLen New \<longleftrightarrow>
   0 \<le> sint v \<and> sint v < 8388608"
proof (cases "0 \<le> sint v")
  case False
  then have neg: "sint v < 0" by simp
  have "countsLen New \<le> countsIndexFor New v"
    using sub_bounds [of v] bucketOf_negative [OF neg]
    by (simp add: countsIndexFor_New countsLen_New)
  then show ?thesis using neg by simp
next
  case True
  then have s: "sint v = int (unat v)"
    using uint_of_sint(1) [of v] by simp
  have nn: "0 \<le> sint v div 2 ^ bucketOf v"
    using True by (simp add: pos_imp_zdiv_nonneg_iff)
  show ?thesis
  proof (cases "sint v < 8388608")
    case True
    then have "unat v < 2 ^ 23"
      using \<open>0 \<le> sint v\<close> by (simp add: unat_less_iff_sint)
    then have "Len (unat v) \<le> 23" by (simp add: Len_le_iff)
    then have "bucketOf v \<le> 12" by (simp add: bucketOf_def)
    then have "int (bucketOf v) * 1024 \<le> 12 * 1024" by simp
    then show ?thesis
      using sub_bounds [of v] nn True \<open>0 \<le> sint v\<close>
      by (simp add: countsIndexFor_New countsLen_New)
  next
    case False
    then have "\<not> unat v < 2 ^ 23"
      using \<open>0 \<le> sint v\<close> by (simp add: unat_less_iff_sint)
    then have l: "\<not> Len (unat v) \<le> 23" by (simp add: Len_le_iff)
    then have b: "13 \<le> bucketOf v" and e: "Len (unat v) = bucketOf v + 11"
      by (simp_all add: bucketOf_def)
    have "\<not> Len (unat v) \<le> bucketOf v + 10" using e by simp
    then have "\<not> unat v < 2 ^ (bucketOf v + 10)" by (simp add: Len_le_iff)
    then have "2 ^ 10 * 2 ^ bucketOf v \<le> unat v"
      by (simp add: power_add mult.commute)
    then have "2 ^ 10 \<le> unat v div 2 ^ bucketOf v"
      by (simp add: less_eq_div_iff_mult_less_eq)
    then have "int (2 ^ 10) \<le> int (unat v div 2 ^ bucketOf v)"
      by (simp only: of_nat_le_iff)
    then have "1024 \<le> sint v div 2 ^ bucketOf v"
      using s by (simp add: zdiv_int)
    moreover have "13 * 1024 \<le> int (bucketOf v) * 1024" using b by simp
    ultimately have "countsLen New \<le> countsIndexFor New v"
      by (simp add: countsIndexFor_New countsLen_New)
    then show ?thesis using False by simp
  qed
qed


lemma countsIndexFor_holding: "countsIndexFor (holding vs) v = countsIndexFor New v"
  by (simp add: countsIndexFor_def getBucketIndex_def getSubBucketIdx_def countsIndex_def
      holding_def)

lemma countsLen_holding: "countsLen (holding vs) = 14336"
  by (simp add: holding_def New_def)




lemma RecordValue_refused:
  "\<not> (0 \<le> sint v \<and> sint v < 8388608) \<Longrightarrow>
   RecordValue v (holding vs) =
     (holding vs, Some (Err (''value '' @ int_dec (sint v) @ '' is too large to be recorded'')))"
  using recordable_iff [of v]
  by (auto simp: RecordValue_def RecordValues_def Let_def countsIndexFor_holding
      countsLen_holding countsLen_New)





subsection \<open>The three loops\<close>





























end
